theory Spec2Isabelle
  imports Main
begin

section \<open>Python strings and the library functions the engine calls\<close>

text \<open>
  A Python \<^verbatim>\<open>str\<close> is modelled as a \<^typ>\<open>string\<close> whose characters are the code points
  U+0000 to U+00FF, so that \<^term>\<open>length\<close> counts code points as Python's \<^verbatim>\<open>len\<close> does;
  the tables of white space, of word characters and of printable characters below are
  those of Python for these code points. Characters that a string literal of this
  theory cannot hold are written by code.
\<close>

definition squote :: char where
  "squote = CHR 0x27"

definition dquote :: char where
  "dquote = CHR 0x22"

definition backslash :: char where
  "backslash = CHR 0x5C"

definition newline :: char where
  "newline = CHR 0x0A"

definition code_point :: "char \<Rightarrow> nat" where
  "code_point c = of_char c"

text \<open>\<^verbatim>\<open>str.isspace\<close> on one character: the white space of Unicode below U+0100.\<close>

definition is_space :: "char \<Rightarrow> bool" where
  "is_space c =
     (let n = code_point c
      in (9 \<le> n \<and> n \<le> 13) \<or> (28 \<le> n \<and> n \<le> 32) \<or> n = 133 \<or> n = 160)"

text \<open>\<^verbatim>\<open>str.strip()\<close>: leading and trailing white space removed.\<close>

definition strip :: "string \<Rightarrow> string" where
  "strip s = rev (dropWhile is_space (rev (dropWhile is_space s)))"

text \<open>
  The pattern \<^verbatim>\<open>\{\{([^}]+)\}\}\<close> tried at the head of a string. After the two opening
  braces the greedy class takes the longest run of characters other than the closing
  brace; a shorter run would be followed by one of those characters, which
  \<^verbatim>\<open>\}\<close> rejects, so backtracking finds nothing else. The result is group 1 and the
  text after the match.
\<close>

fun match_at :: "string \<Rightarrow> (string \<times> string) option" where
  "match_at (c1 # c2 # t) =
     (if c1 = CHR ''{'' \<and> c2 = CHR ''{'' then
        (let g = takeWhile (\<lambda>c. c \<noteq> CHR ''}'') t;
             rest = dropWhile (\<lambda>c. c \<noteq> CHR ''}'') t
         in if g = [] then None
            else (case rest of
                    d1 # d2 # r \<Rightarrow>
                      if d1 = CHR ''}'' \<and> d2 = CHR ''}'' then Some (g, r) else None
                  | _ \<Rightarrow> None))
      else None)"
| "match_at _ = None"

text \<open>
  The scan that \<^verbatim>\<open>re.sub\<close> and \<^verbatim>\<open>re.findall\<close> share: matches are looked for from
  left to right and do not overlap; where the pattern fails the character is passed
  over and the scan goes on at the next one.
\<close>

datatype piece = Lit char | Match string

function scan :: "string \<Rightarrow> piece list" where
  "scan [] = []"
| "scan (c # cs) =
     (case match_at (c # cs) of
        Some (g, rest) \<Rightarrow> Match g # scan rest
      | None \<Rightarrow> Lit c # scan cs)"
  by pat_completeness auto
termination
proof (relation "measure length")
  fix c :: char and cs :: string and x2 :: "string \<times> string" and g rest :: string
  assume m: "match_at (c # cs) = Some x2" and x2: "(g, rest) = x2"
  have "length rest < length (c # cs)"
  proof (cases cs)
    case Nil
    with m show ?thesis by simp
  next
    case (Cons c2 t)
    have "length (dropWhile (\<lambda>c. c \<noteq> CHR ''}'') t) \<le> length t"
      by (rule length_dropWhile_le)
    with m x2 Cons show ?thesis
      by (auto simp: Let_def split: if_splits list.splits)
  qed
  then show "(rest, c # cs) \<in> measure length" by simp
qed simp_all

text \<open>\<^verbatim>\<open>re.findall\<close> with one group: group 1 of every match, in order.\<close>

fun groups :: "piece list \<Rightarrow> string list" where
  "groups [] = []"
| "groups (Lit c # ps) = groups ps"
| "groups (Match g # ps) = g # groups ps"

definition findall :: "string \<Rightarrow> string list" where
  "findall content = groups (scan content)"

text \<open>
  The exceptions the engine raises or lets through. \<^verbatim>\<open>KeyError\<close>, \<^verbatim>\<open>ValueError\<close> and
  \<^verbatim>\<open>OverflowError\<close> carry their message; \<^verbatim>\<open>OSError\<close> with \<^verbatim>\<open>errno\<close>
  \<^verbatim>\<open>ENAMETOOLONG\<close> and its subclasses \<^verbatim>\<open>FileNotFoundError\<close>, \<^verbatim>\<open>NotADirectoryError\<close>,
  \<^verbatim>\<open>IsADirectoryError\<close> and \<^verbatim>\<open>PermissionError\<close> carry the path as their \<^verbatim>\<open>filename\<close>.
\<close>

datatype py_error =
    KeyError string
  | ValueError string
  | OverflowError string
  | OSError string
  | FileNotFoundError string
  | NotADirectoryError string
  | IsADirectoryError string
  | PermissionError string

text \<open>
  \<^verbatim>\<open>re.sub\<close> with a function as replacement: the function is called on each match as
  the scan reaches it, and an exception it raises ends the substitution at once.
\<close>

fun sub_pieces :: "(string \<Rightarrow> py_error + string) \<Rightarrow> piece list \<Rightarrow> py_error + string" where
  "sub_pieces repl [] = Inr []"
| "sub_pieces repl (Lit c # ps) =
     (case sub_pieces repl ps of Inl e \<Rightarrow> Inl e | Inr out \<Rightarrow> Inr (c # out))"
| "sub_pieces repl (Match g # ps) =
     (case repl g of
        Inl e \<Rightarrow> Inl e
      | Inr v \<Rightarrow> (case sub_pieces repl ps of Inl e \<Rightarrow> Inl e | Inr out \<Rightarrow> Inr (v @ out)))"

definition re_sub :: "(string \<Rightarrow> py_error + string) \<Rightarrow> string \<Rightarrow> py_error + string" where
  "re_sub repl content = sub_pieces repl (scan content)"

text \<open>\<^verbatim>\<open>list(dict.fromkeys(xs))\<close>: a key is inserted when it is met for the first time.\<close>

fun fromkeys :: "'a list \<Rightarrow> 'a list \<Rightarrow> 'a list" where
  "fromkeys seen [] = seen"
| "fromkeys seen (x # xs) = fromkeys (if x \<in> set seen then seen else seen @ [x]) xs"

text \<open>
  A \<^verbatim>\<open>Dict[str, str]\<close> is an association list in insertion order; \<^verbatim>\<open>key in d\<close> and
  \<^verbatim>\<open>d[key]\<close> go through \<^const>\<open>map_of\<close>.
\<close>

type_synonym pydict = "(string \<times> string) list"

text \<open>
  \<^verbatim>\<open>repr\<close> of a string, which is what \<^verbatim>\<open>str\<close> of a \<^verbatim>\<open>KeyError\<close> with one
  argument returns: double quotes when the text has a single quote and no double
  quote, single quotes otherwise; the quote and the backslash escaped, and a character
  that is not printable written as an escape.
\<close>

definition hex_digit :: "nat \<Rightarrow> char" where
  "hex_digit n = ''0123456789abcdef'' ! n"

definition hex2 :: "char \<Rightarrow> string" where
  "hex2 c = [hex_digit (code_point c div 16), hex_digit (code_point c mod 16)]"

definition is_printable :: "char \<Rightarrow> bool" where
  "is_printable c =
     (let n = code_point c in (32 \<le> n \<and> n < 127) \<or> (161 \<le> n \<and> n \<noteq> 173))"

definition repr_char :: "char \<Rightarrow> char \<Rightarrow> string" where
  "repr_char q c =
     (if c = q \<or> c = backslash then [backslash, c]
      else if c = CHR 0x09 then [backslash, CHR ''t'']
      else if c = CHR 0x0A then [backslash, CHR ''n'']
      else if c = CHR 0x0D then [backslash, CHR ''r'']
      else if \<not> is_printable c then [backslash, CHR ''x''] @ hex2 c
      else [c])"

definition py_repr :: "string \<Rightarrow> string" where
  "py_repr s =
     (let q = (if squote \<in> set s \<and> dquote \<notin> set s then dquote else squote)
      in [q] @ concat (map (repr_char q) s) @ [q])"

text \<open>\<^verbatim>\<open>str(exc)\<close>.\<close>

fun str_exc :: "py_error \<Rightarrow> string" where
  "str_exc (KeyError m) = py_repr m"
| "str_exc (ValueError m) = m"
| "str_exc (OverflowError m) = m"
| "str_exc (OSError f) = ''[Errno 36] File name too long: '' @ py_repr f"
| "str_exc (FileNotFoundError f) = ''[Errno 2] No such file or directory: '' @ py_repr f"
| "str_exc (NotADirectoryError f) = ''[Errno 20] Not a directory: '' @ py_repr f"
| "str_exc (IsADirectoryError f) = ''[Errno 21] Is a directory: '' @ py_repr f"
| "str_exc (PermissionError f) = ''[Errno 13] Permission denied: '' @ py_repr f"

text \<open>\<^verbatim>\<open>json.dumps\<close> of a list of strings and of a dictionary of strings.\<close>

definition json_char :: "char \<Rightarrow> string" where
  "json_char c =
     (if c = dquote then [backslash, dquote]
      else if c = backslash then [backslash, backslash]
      else if c = CHR 0x0A then [backslash, CHR ''n'']
      else if c = CHR 0x0D then [backslash, CHR ''r'']
      else if c = CHR 0x09 then [backslash, CHR ''t'']
      else if c = CHR 0x08 then [backslash, CHR ''b'']
      else if c = CHR 0x0C then [backslash, CHR ''f'']
      else if code_point c < 32 \<or> 126 < code_point c
        then [backslash, CHR ''u'', CHR ''0'', CHR ''0''] @ hex2 c
      else [c])"

definition json_str :: "string \<Rightarrow> string" where
  "json_str s = [dquote] @ concat (map json_char s) @ [dquote]"

fun join :: "string \<Rightarrow> string list \<Rightarrow> string" where
  "join sep [] = []"
| "join sep [x] = x"
| "join sep (x # y # ys) = x @ sep @ join sep (y # ys)"

definition json_dumps_list :: "string list \<Rightarrow> string" where
  "json_dumps_list xs = ''['' @ join '', '' (map json_str xs) @ '']''"

definition json_dumps_dict :: "pydict \<Rightarrow> string" where
  "json_dumps_dict d =
     ''{'' @ join '', '' (map (\<lambda>(k, v). json_str k @ '': '' @ json_str v) d) @ ''}''"

text \<open>\<^verbatim>\<open>str\<close> of an integer, as an f-string formats it.\<close>

fun digits :: "nat \<Rightarrow> string" where
  "digits n =
     (if n < 10 then [''0123456789'' ! n]
      else digits (n div 10) @ [''0123456789'' ! (n mod 10)])"

declare digits.simps [simp del]

definition str_int :: "int \<Rightarrow> string" where
  "str_int i = (if i < 0 then ''-'' @ digits (nat (- i)) else digits (nat i))"

text \<open>\<^verbatim>\<open>\w\<close> of a \<^verbatim>\<open>str\<close> pattern: alphanumeric characters and the underscore.\<close>

definition is_word :: "char \<Rightarrow> bool" where
  "is_word c =
     (let n = code_point c
      in (48 \<le> n \<and> n \<le> 57) \<or> (65 \<le> n \<and> n \<le> 90) \<or> n = 95 \<or> (97 \<le> n \<and> n \<le> 122)
         \<or> n = 170 \<or> n = 178 \<or> n = 179 \<or> n = 181 \<or> n = 185 \<or> n = 186
         \<or> (188 \<le> n \<and> n \<le> 190) \<or> (192 \<le> n \<and> n \<le> 214) \<or> (216 \<le> n \<and> n \<le> 246)
         \<or> 248 \<le> n)"

text \<open>The size in bytes of a text written with \<^verbatim>\<open>encoding="utf-8"\<close>.\<close>

definition utf8_size :: "string \<Rightarrow> int" where
  "utf8_size s = sum_list (map (\<lambda>c. if code_point c < 128 then 1 else 2) s)"

text \<open>
  \<^verbatim>\<open>pathlib\<close> on POSIX. A path is its root and its parts. Parsing a string cuts it at
  the slashes and drops the empty pieces and the pieces that are a single dot; the
  root is two slashes when the string begins with exactly two, else one slash when it
  begins with one, else nothing. \<^verbatim>\<open>/\<close> appends the parts of its right operand, or
  takes the right operand alone when that one has a root. \<^verbatim>\<open>str\<close> joins the parts
  with slashes behind the root.
\<close>

fun split_sep :: "string \<Rightarrow> string list" where
  "split_sep [] = [Nil]"
| "split_sep (c # cs) =
     (if c = CHR ''/'' then [] # split_sep cs
      else (case split_sep cs of
              [] \<Rightarrow> [c # Nil]
            | p # ps \<Rightarrow> (c # p) # ps))"

definition path_parts :: "string \<Rightarrow> string list" where
  "path_parts p = filter (\<lambda>x. x \<noteq> [] \<and> x \<noteq> ''.'') (split_sep p)"

definition path_root :: "string \<Rightarrow> string" where
  "path_root p =
     (if take 2 p = ''//'' \<and> take 3 p \<noteq> ''///'' then ''//''
      else if take 1 p = ''/'' then ''/''
      else [])"

type_synonym pypath = "string \<times> string list"

definition pure_path :: "string \<Rightarrow> pypath" where
  "pure_path p = (path_root p, path_parts p)"

definition truediv :: "pypath \<Rightarrow> string \<Rightarrow> pypath" where
  "truediv p rel =
     (if path_root rel \<noteq> [] then pure_path rel else (fst p, snd p @ path_parts rel))"

definition str_path :: "pypath \<Rightarrow> string" where
  "str_path p = (if fst p = [] \<and> snd p = [] then ''.'' else fst p @ join ''/'' (snd p))"

text \<open>
  The limits of Linux on a file name and on a path, in bytes; the path limit counts
  the terminating zero byte.
\<close>

definition NAME_MAX :: int where
  "NAME_MAX = 255"

definition PATH_MAX :: int where
  "PATH_MAX = 4096"

text \<open>
  The integers SQLite stores: binding another Python \<^verbatim>\<open>int\<close> to a parameter raises
  \<^verbatim>\<open>OverflowError\<close>.
\<close>

definition sqlite_integer :: "int \<Rightarrow> bool" where
  "sqlite_integer i = (- (2 ^ 63) \<le> i \<and> i < 2 ^ 63)"

section \<open>Rendering\<close>

text \<open>The inner function \<^verbatim>\<open>replace\<close> of \<^verbatim>\<open>_render\<close>, called with group 1 of a match.\<close>

definition replace :: "pydict \<Rightarrow> string \<Rightarrow> py_error + string" where
  "replace variables g =
     (let key = strip g
      in case map_of variables key of
           None \<Rightarrow> Inl (KeyError (''Missing template variable: '' @ [squote] @ key @ [squote]))
         | Some v \<Rightarrow> Inr v)"

text \<open>\<^verbatim>\<open>_render(content, variables)\<close>.\<close>

definition private_render :: "string \<Rightarrow> pydict \<Rightarrow> py_error + string" where
  "private_render content variables = re_sub (replace variables) content"

text \<open>\<^verbatim>\<open>_extract_vars(content)\<close>.\<close>

definition extract_vars :: "string \<Rightarrow> string list" where
  "extract_vars content = fromkeys [] (map strip (findall content))"

section \<open>Data model\<close>

text \<open>
  The three dataclasses, which are also the rows of the three tables. A row's \<^verbatim>\<open>id\<close> is
  an integer: the engine builds its objects from \<^verbatim>\<open>lastrowid\<close> or from a stored row.
\<close>

record template =
  t_id :: int
  t_name :: string
  t_content :: string
  t_variables :: string
  t_category :: string
  t_version :: int
  t_created_at :: string
  t_updated_at :: string

record document =
  d_id :: int
  d_template_id :: int
  d_template_name :: string
  d_title :: string
  d_content :: string
  d_variables_used :: string
  d_fmt :: string
  d_status :: string
  d_created_at :: string

record export_record =
  e_id :: int
  e_document_id :: int
  e_export_path :: string
  e_export_format :: string
  e_file_size_bytes :: int
  e_exported_at :: string

text \<open>
  What the engine works on: the three tables in insertion order, the counter that
  \<^verbatim>\<open>AUTOINCREMENT\<close> keeps for each (the largest id ever given), the regular files by
  path with their text, and the home directory of the process, an absolute path as
  \<^verbatim>\<open>HOME\<close> gives it.
\<close>

record engine =
  templates :: "template list"
  templates_seq :: int
  documents :: "document list"
  documents_seq :: int
  export_records :: "export_record list"
  export_records_seq :: int
  files :: "string \<rightharpoonup> string"
  home :: string

text \<open>\<^verbatim>\<open>Path.home() / ".blackroad" / "documents"\<close>.\<close>

definition DOCS_DIR :: "string \<Rightarrow> pypath" where
  "DOCS_DIR h = truediv (truediv (pure_path h) ''.blackroad'') ''documents''"

text \<open>
  \<^verbatim>\<open>_get_db\<close> on a machine where nothing exists yet: three empty tables, and the
  documents directory, made with its parents, with no file in it.
\<close>

definition get_db :: "string \<Rightarrow> engine" where
  "get_db h =
     \<lparr>templates = [], templates_seq = 0, documents = [], documents_seq = 0,
      export_records = [], export_records_seq = 0, files = Map.empty, home = h\<rparr>"

section \<open>The engine\<close>

text \<open>
  Each operation takes the engine and the readings of the clock it makes
  (\<^verbatim>\<open>datetime.utcnow()\<close>, already formatted) and returns its result with the engine
  afterwards. An exception is the left summand; the engine returned with it is the
  engine at the moment of the raise. Arguments with a default (\<^verbatim>\<open>category="general"\<close>,
  \<^verbatim>\<open>fmt="txt"\<close> of \<^verbatim>\<open>render\<close>) are passed by the caller; the optional format of
  \<^verbatim>\<open>export_document\<close> is an option.

  A \<^verbatim>\<open>SELECT ... WHERE\<close> followed by \<^verbatim>\<open>fetchone()\<close> is the first row that satisfies
  the condition, an \<^verbatim>\<open>UPDATE ... WHERE\<close> changes every row that satisfies it, and an
  \<^verbatim>\<open>INSERT\<close> appends a row whose id is the counter of the table plus one.
\<close>

definition select_template :: "engine \<Rightarrow> string \<Rightarrow> template option" where
  "select_template s name = find (\<lambda>r. t_name r = name) (templates s)"

definition select_document :: "engine \<Rightarrow> int \<Rightarrow> document option" where
  "select_document s doc_id = find (\<lambda>r. d_id r = doc_id) (documents s)"

definition create_template ::
  "engine \<Rightarrow> string \<Rightarrow> string \<Rightarrow> string \<Rightarrow> string \<Rightarrow> template \<times> engine" where
  "create_template s name content category ts =
     (let variables = json_dumps_list (extract_vars content)
      in case select_template s name of
           Some existing \<Rightarrow>
             (let ver = t_version existing + 1;
                  s' = s\<lparr>templates :=
                         map (\<lambda>r. if t_name r = name
                                   then r\<lparr>t_content := content, t_variables := variables,
                                          t_category := category, t_version := ver,
                                          t_updated_at := ts\<rparr>
                                   else r) (templates s)\<rparr>;
                  tid = t_id existing
              in (\<lparr>t_id = tid, t_name = name, t_content = content,
                   t_variables = variables, t_category = category, t_version = ver,
                   t_created_at = ts, t_updated_at = ts\<rparr>, s'))
         | None \<Rightarrow>
             (let ver = 1;
                  tid = templates_seq s + 1;
                  s' = s\<lparr>templates :=
                         templates s @
                           [\<lparr>t_id = tid, t_name = name, t_content = content,
                             t_variables = variables, t_category = category,
                             t_version = ver, t_created_at = ts, t_updated_at = ts\<rparr>],
                        templates_seq := tid\<rparr>
              in (\<lparr>t_id = tid, t_name = name, t_content = content,
                   t_variables = variables, t_category = category, t_version = ver,
                   t_created_at = ts, t_updated_at = ts\<rparr>, s')))"

definition render ::
  "engine \<Rightarrow> string \<Rightarrow> string \<Rightarrow> pydict \<Rightarrow> string \<Rightarrow> string
     \<Rightarrow> (py_error + document) \<times> engine" where
  "render s template_name title variables fmt ts =
     (case select_template s template_name of
        None \<Rightarrow>
          (Inl (KeyError (''Template '' @ [squote] @ template_name @ [squote] @ '' not found'')), s)
      | Some row \<Rightarrow>
          (case private_render (t_content row) variables of
             Inl (KeyError m) \<Rightarrow> (Inl (ValueError (str_exc (KeyError m))), s)
           | Inl exc \<Rightarrow> (Inl exc, s)
           | Inr content \<Rightarrow>
               (let doc = \<lparr>d_id = documents_seq s + 1, d_template_id = t_id row,
                           d_template_name = template_name, d_title = title,
                           d_content = content,
                           d_variables_used = json_dumps_dict variables,
                           d_fmt = fmt, d_status = ''draft'', d_created_at = ts\<rparr>
                in (Inr doc, s\<lparr>documents := documents s @ [doc],
                               documents_seq := documents_seq s + 1\<rparr>))))"

text \<open>\<^verbatim>\<open>fmt or row["fmt"]\<close>: \<^verbatim>\<open>None\<close> and the empty string are both false.\<close>

definition or_else :: "string option \<Rightarrow> string \<Rightarrow> string" where
  "or_else fmt stored = (case fmt of None \<Rightarrow> stored | Some f \<Rightarrow> if f = [] then stored else f)"

text \<open>\<^verbatim>\<open>re.sub(r"[^\w\-]", "_", title)\<close>.\<close>

definition safe_title :: "string \<Rightarrow> string" where
  "safe_title title = map (\<lambda>c. if is_word c \<or> c = CHR ''-'' then c else CHR ''_'') title"

text \<open>The body that \<^verbatim>\<open>export_document\<close> writes, by format.\<close>

definition wrap_body :: "string \<Rightarrow> string \<Rightarrow> string \<Rightarrow> string" where
  "wrap_body export_fmt title body =
     (if export_fmt = ''html'' then
        ''<!DOCTYPE html><html><head>'' @
        ''<title>'' @ title @ ''</title></head>'' @
        ''<body><h1>'' @ title @ ''</h1>'' @
        ''<pre>'' @ body @ ''</pre></body></html>''
      else if export_fmt = ''md'' then ''# '' @ title @ [newline, newline] @ body @ [newline]
      else body)"

text \<open>
  Opening a path for writing, as \<^verbatim>\<open>Path.write_text\<close> does first. The file system is
  the one \<^verbatim>\<open>_get_db\<close> leaves and exports fill: the documents directory exists and
  holds regular files only, and the process may create and replace files in it and
  nowhere else. Python refuses a path with a zero character; the kernel refuses a path
  of \<^verbatim>\<open>PATH_MAX\<close> bytes or more, then walks the parts below the documents directory: a
  part longer than \<^verbatim>\<open>NAME_MAX\<close> bytes is refused, a part that has further parts behind
  it would have to be a directory and is a regular file or missing, and the last part
  is the file to create or replace. The result is the exception raised, if any.
\<close>

definition write_error :: "engine \<Rightarrow> pypath \<Rightarrow> py_error option" where
  "write_error s p =
     (let d = DOCS_DIR (home s);
          n = length (snd d)
      in if CHR 0x00 \<in> set (str_path p) then Some (ValueError ''embedded null byte'')
         else if PATH_MAX \<le> utf8_size (str_path p) then Some (OSError (str_path p))
         else if fst p = fst d \<and> take n (snd p) = snd d then
           (case drop n (snd p) of
              [] \<Rightarrow> Some (IsADirectoryError (str_path p))
            | name # rest \<Rightarrow>
                if NAME_MAX < utf8_size name then Some (OSError (str_path p))
                else if rest = [] then None
                else if files s (str_path (fst d, snd d @ [name])) \<noteq> None
                  then Some (NotADirectoryError (str_path p))
                else Some (FileNotFoundError (str_path p)))
         else Some (PermissionError (str_path p)))"

text \<open>
  \<^verbatim>\<open>Path.write_text\<close> and \<^verbatim>\<open>Path.stat().st_size\<close> on the files of the engine. A
  write that is not refused creates the file or replaces its text; a refused write
  changes nothing. Newlines are written as they are, as on POSIX.
\<close>

definition write_text :: "engine \<Rightarrow> pypath \<Rightarrow> string \<Rightarrow> py_error + engine" where
  "write_text s p body =
     (case write_error s p of
        Some exc \<Rightarrow> Inl exc
      | None \<Rightarrow> Inr (s\<lparr>files := (files s)(str_path p \<mapsto> body)\<rparr>))"

definition st_size :: "engine \<Rightarrow> pypath \<Rightarrow> py_error + int" where
  "st_size s p =
     (case files s (str_path p) of
        None \<Rightarrow> Inl (FileNotFoundError (str_path p))
      | Some text \<Rightarrow> Inr (utf8_size text))"

text \<open>
  \<^verbatim>\<open>export_document\<close>. The document id is bound to the parameter of the \<^verbatim>\<open>SELECT\<close>
  first. Nothing is committed before the file is written and measured: an exception
  of the write leaves the tables as they were.
\<close>

definition export_document ::
  "engine \<Rightarrow> int \<Rightarrow> string option \<Rightarrow> string \<Rightarrow> string
     \<Rightarrow> (py_error + export_record) \<times> engine" where
  "export_document s doc_id fmt ts_tag ts =
     (if \<not> sqlite_integer doc_id
      then (Inl (OverflowError ''Python int too large to convert to SQLite INTEGER''), s)
      else case select_document s doc_id of
        None \<Rightarrow> (Inl (KeyError (''Document id='' @ str_int doc_id @ '' not found'')), s)
      | Some row \<Rightarrow>
          (let export_fmt = or_else fmt (d_fmt row);
               fname = safe_title (d_title row) @ ''_'' @ ts_tag @ ''.'' @ export_fmt;
               out_path = truediv (DOCS_DIR (home s)) fname;
               body = wrap_body export_fmt (d_title row) (d_content row)
           in case write_text s out_path body of
                Inl exc \<Rightarrow> (Inl exc, s)
              | Inr s1 \<Rightarrow>
                  (case st_size s1 out_path of
                     Inl exc \<Rightarrow> (Inl exc, s1)
                   | Inr nbytes \<Rightarrow>
                       (let rec = \<lparr>e_id = export_records_seq s1 + 1, e_document_id = doc_id,
                                   e_export_path = str_path out_path,
                                   e_export_format = export_fmt,
                                   e_file_size_bytes = nbytes, e_exported_at = ts\<rparr>;
                            s2 = s1\<lparr>export_records := export_records s1 @ [rec],
                                    export_records_seq := export_records_seq s1 + 1\<rparr>;
                            s3 = s2\<lparr>documents :=
                                      map (\<lambda>r. if d_id r = doc_id
                                                then r\<lparr>d_status := ''exported''\<rparr> else r)
                                          (documents s2)\<rparr>
                        in (Inr rec, s3)))))"

text \<open>
  The file name and the path of an export of a stored row, as \<^verbatim>\<open>export_document\<close>
  builds them, for the statements about it.
\<close>

definition export_file_name :: "document \<Rightarrow> string option \<Rightarrow> string \<Rightarrow> string" where
  "export_file_name row fmt ts_tag =
     safe_title (d_title row) @ ''_'' @ ts_tag @ ''.'' @ or_else fmt (d_fmt row)"

definition export_path :: "engine \<Rightarrow> document \<Rightarrow> string option \<Rightarrow> string \<Rightarrow> pypath" where
  "export_path s row fmt ts_tag =
     truediv (DOCS_DIR (home s)) (export_file_name row fmt ts_tag)"

section \<open>Sequences of calls\<close>

text \<open>
  A call of one of the three operations that change the engine, with its arguments and
  the clock readings it makes. The listing and counting operations only read.
\<close>

datatype call =
    CreateTemplate string string string string
  | Render string string pydict string string
  | Export int "string option" string string

fun perform :: "engine \<Rightarrow> call \<Rightarrow> engine" where
  "perform s (CreateTemplate name content category ts) =
     snd (create_template s name content category ts)"
| "perform s (Render template_name title variables fmt ts) =
     snd (render s template_name title variables fmt ts)"
| "perform s (Export doc_id fmt ts_tag ts) =
     snd (export_document s doc_id fmt ts_tag ts)"

definition run :: "engine \<Rightarrow> call list \<Rightarrow> engine" where
  "run s cs = foldl perform s cs"

text \<open>The export record of a call, when the call is an export that returns one.\<close>

fun exported :: "engine \<Rightarrow> call \<Rightarrow> export_record list" where
  "exported s (Export doc_id fmt ts_tag ts) =
     (case fst (export_document s doc_id fmt ts_tag ts) of
        Inl exc \<Rightarrow> []
      | Inr rec \<Rightarrow> [rec])"
| "exported s _ = []"

text \<open>The export records returned along a sequence of calls, in order.\<close>

fun exports_done :: "engine \<Rightarrow> call list \<Rightarrow> export_record list" where
  "exports_done s [] = []"
| "exports_done s (c # cs) = exported s c @ exports_done (perform s c) cs"

text \<open>The timestamp tags that the exports of a sequence of calls read from the clock.\<close>

fun tags :: "call list \<Rightarrow> string list" where
  "tags [] = []"
| "tags (Export doc_id fmt ts_tag ts # cs) = ts_tag # tags cs"
| "tags (c # cs) = tags cs"

text \<open>
  What \<^verbatim>\<open>strftime("%Y%m%d_%H%M%S")\<close> returns for a year of four digits: eight
  digits, an underscore, six digits.
\<close>

definition is_digit :: "char \<Rightarrow> bool" where
  "is_digit c = (c \<in> set ''0123456789'')"

definition ts_tag_format :: "string \<Rightarrow> bool" where
  "ts_tag_format t =
     (length t = 15 \<and> list_all is_digit (take 8 t) \<and> t ! 8 = CHR ''_''
      \<and> list_all is_digit (drop 9 t))"

text \<open>
  What decides the file of an export that returns a record: the slug of the title,
  the timestamp tag, and the format up to its first slash. \<^verbatim>\<open>pathlib\<close> drops the
  slashes and single dots behind, and anything else behind a slash makes the write
  fail.
\<close>

type_synonym file_key = "string \<times> string \<times> string"

fun exported_key :: "engine \<Rightarrow> call \<Rightarrow> file_key list" where
  "exported_key s (Export doc_id fmt ts_tag ts) =
     (case select_document s doc_id of
        None \<Rightarrow> []
      | Some row \<Rightarrow>
          (case fst (export_document s doc_id fmt ts_tag ts) of
             Inl exc \<Rightarrow> []
           | Inr rec \<Rightarrow>
               [(safe_title (d_title row), ts_tag,
                 takeWhile (\<lambda>c. c \<noteq> CHR ''/'') (e_export_format rec))]))"
| "exported_key s _ = []"

fun file_keys :: "engine \<Rightarrow> call list \<Rightarrow> file_key list" where
  "file_keys s [] = []"
| "file_keys s (c # cs) = exported_key s c @ file_keys (perform s c) cs"

text \<open>The path of the file with a given slug, tag and format, below a home directory.\<close>

definition key_path :: "string \<Rightarrow> file_key \<Rightarrow> string" where
  "key_path h k =
     (case k of (slug, t, f) \<Rightarrow>
        str_path (fst (DOCS_DIR h), snd (DOCS_DIR h) @ [slug @ ''_'' @ t @ ''.'' @ f]))"


section \<open>The specification's wording of the extractor\<close>

text \<open>
  Names in first-occurrence order with duplicates removed: the name at a position is
  kept when it does not occur at an earlier position.
\<close>

definition first_occurrences :: "'a list \<Rightarrow> 'a list" where
  "first_occurrences xs =
     map (\<lambda>i. xs ! i) (filter (\<lambda>i. xs ! i \<notin> set (take i xs)) [0..<length xs])"

section \<open>The specification's wording of substitution\<close>

text \<open>
  A template text cut at its placeholders: each part is the literal text before a
  placeholder, the placeholder's name as written between the braces, and the value put
  in its place; the tail is the literal text after the last placeholder.
\<close>

type_synonym part = "string \<times> string \<times> string"

fun template_text :: "part list \<Rightarrow> string \<Rightarrow> string" where
  "template_text [] tail = tail"
| "template_text ((l, g, v) # ps) tail = l @ ''{{'' @ g @ ''}}'' @ template_text ps tail"

fun filled_text :: "part list \<Rightarrow> string \<Rightarrow> string" where
  "filled_text [] tail = tail"
| "filled_text ((l, g, v) # ps) tail = l @ v @ filled_text ps tail"

text \<open>A value that is not empty and has no brace.\<close>

definition plain_value :: "string \<Rightarrow> bool" where
  "plain_value v = (v \<noteq> [] \<and> CHR ''{'' \<notin> set v \<and> CHR ''}'' \<notin> set v)"

text \<open>
  Two notions for the proofs: a text that goes on, after at least one character, to
  two closing braces without a closing brace before them, which is what the pattern
  asks of the text behind two opening braces; and a template text each of whose
  placeholders has such a value in the mapping.
\<close>

definition closes :: "string \<Rightarrow> bool" where
  "closes s =
     (takeWhile (\<lambda>c. c \<noteq> CHR ''}'') s \<noteq> []
      \<and> (\<exists>r. dropWhile (\<lambda>c. c \<noteq> CHR ''}'') s = ''}}'' @ r))"

definition plainly_covered :: "pydict \<Rightarrow> string \<Rightarrow> bool" where
  "plainly_covered vars t =
     (\<forall>g \<in> set (findall t). \<exists>v. map_of vars (strip g) = Some v \<and> plain_value v)"

section \<open>Example engines\<close>

definition greeting :: string where
  "greeting = ''Hello {{name}}, you owe {{amount}}''"

definition engine_one :: engine where
  "engine_one = run (get_db ''/home/u'') [CreateTemplate ''greet'' greeting ''general'' ''t0'']"

definition engine_two :: engine where
  "engine_two =
     run (get_db ''/home/u'')
       [CreateTemplate ''inv'' ''Total: {{n}}'' ''general'' ''t0'',
        Render ''inv'' ''Invoice #1'' [(''n'', ''10'')] ''md'' ''t1'']"

text \<open>The document of \<^verbatim>\<open>engine_two\<close>, as stored.\<close>

definition invoice :: document where
  "invoice =
     \<lparr>d_id = 1, d_template_id = 1, d_template_name = ''inv'', d_title = ''Invoice #1'',
       d_content = ''Total: 10'', d_variables_used = json_dumps_dict [(''n'', ''10'')],
       d_fmt = ''md'', d_status = ''draft'', d_created_at = ''t1''\<rparr>"

definition engine_three :: engine where
  "engine_three =
     run (get_db ''/home/u'')
       [CreateTemplate ''note'' ''{{x}}'' ''general'' ''t0'',
        Render ''note'' ''A'' [(''x'', ''one'')] ''txt'' ''t1'',
        Render ''note'' ''A'' [(''x'', ''two'')] ''txt'' ''t2'']"

text \<open>
  Two documents whose titles have 235 and 236 letters: with the tag and the extension
  \<^verbatim>\<open>.txt\<close> the file name of the first has 255 bytes and that of the second 256.
\<close>

definition engine_four :: engine where
  "engine_four =
     run (get_db ''/home/u'')
       [CreateTemplate ''note'' ''{{x}}'' ''general'' ''t0'',
        Render ''note'' (replicate 235 (CHR ''a'')) [(''x'', ''one'')] ''txt'' ''t1'',
        Render ''note'' (replicate 236 (CHR ''a'')) [(''x'', ''two'')] ''txt'' ''t2'']"

definition note_235 :: document where
  "note_235 =
     \<lparr>d_id = 1, d_template_id = 1, d_template_name = ''note'',
       d_title = replicate 235 (CHR ''a''), d_content = ''one'',
       d_variables_used = json_dumps_dict [(''x'', ''one'')],
       d_fmt = ''txt'', d_status = ''draft'', d_created_at = ''t1''\<rparr>"

definition note_236 :: document where
  "note_236 =
     \<lparr>d_id = 2, d_template_id = 1, d_template_name = ''note'',
       d_title = replicate 236 (CHR ''a''), d_content = ''two'',
       d_variables_used = json_dumps_dict [(''x'', ''two'')],
       d_fmt = ''txt'', d_status = ''draft'', d_created_at = ''t2''\<rparr>"

section \<open>The scan\<close>

lemmas eval_defs =
  run_def create_template_def select_template_def select_document_def get_db_def Let_def
  render_def private_render_def re_sub_def replace_def strip_def is_space_def code_point_def
  export_document_def write_text_def write_error_def st_size_def or_else_def wrap_body_def
  safe_title_def is_word_def DOCS_DIR_def truediv_def pure_path_def path_root_def
  path_parts_def str_path_def NAME_MAX_def PATH_MAX_def sqlite_integer_def utf8_size_def
  extract_vars_def findall_def


lemma match_at_token:
  assumes "g \<noteq> []" and "CHR ''}'' \<notin> set g"
  shows "match_at (''{{'' @ g @ ''}}'' @ r) = Some (g, r)"
proof -
  have tw: "takeWhile (\<lambda>c. c \<noteq> CHR ''}'') (g @ CHR ''}'' # CHR ''}'' # r) = g"
    using assms(2) by (induction g) auto
  have dw: "dropWhile (\<lambda>c. c \<noteq> CHR ''}'') (g @ CHR ''}'' # CHR ''}'' # r)
              = CHR ''}'' # CHR ''}'' # r"
    using assms(2) by (induction g) auto
  show ?thesis
    using assms(1) by (simp add: tw dw Let_def)
qed

lemma match_at_Some:
  assumes "match_at s = Some (g, rest)"
  shows "s = ''{{'' @ g @ ''}}'' @ rest \<and> g \<noteq> [] \<and> CHR ''}'' \<notin> set g"
proof (cases s)
  case Nil
  with assms show ?thesis by simp
next
  case outer: (Cons c1 s')
  show ?thesis
  proof (cases s')
    case Nil
    with assms outer show ?thesis by simp
  next
    case (Cons c2 t)
    let ?P = "\<lambda>c. c \<noteq> CHR ''}''"
    from assms outer Cons have b: "c1 = CHR ''{''" "c2 = CHR ''{''"
      by (auto split: if_splits)
    from assms outer Cons b have g: "g = takeWhile ?P t" "g \<noteq> []"
      by (auto simp: Let_def split: if_splits list.splits)
    from assms outer Cons b have d: "dropWhile ?P t = ''}}'' @ rest"
      by (auto simp: Let_def split: if_splits list.splits)
    have "t = takeWhile ?P t @ dropWhile ?P t" by simp
    then have "t = g @ ''}}'' @ rest" using g d by simp
    moreover have "CHR ''}'' \<notin> set g"
      unfolding g(1) by (auto dest: set_takeWhileD)
    ultimately show ?thesis using outer Cons b g by simp
  qed
qed

lemma match_at_append:
  assumes "match_at s = Some (g, r)"
  shows "match_at (s @ t) = Some (g, r @ t)"
proof -
  from match_at_Some [OF assms]
  have s: "s = ''{{'' @ g @ ''}}'' @ r" and g: "g \<noteq> []" "CHR ''}'' \<notin> set g" by auto
  have "s @ t = ''{{'' @ g @ ''}}'' @ (r @ t)" by (subst s) simp
  then show ?thesis using match_at_token [OF g, of "r @ t"] by simp
qed

lemma findall_Nil [simp]: "findall [] = []"
  by (simp add: findall_def)

lemma findall_pass:
  "match_at (c # cs) = None \<Longrightarrow> findall (c # cs) = findall cs"
  by (simp add: findall_def)

lemma findall_match:
  "match_at (c # cs) = Some (g, rest) \<Longrightarrow> findall (c # cs) = g # findall rest"
  by (simp add: findall_def)

lemma re_sub_pass:
  "match_at (c # cs) = None \<Longrightarrow>
   re_sub repl (c # cs) = (case re_sub repl cs of Inl e \<Rightarrow> Inl e | Inr out \<Rightarrow> Inr (c # out))"
  by (simp add: re_sub_def)

lemma re_sub_match:
  "match_at (c # cs) = Some (g, rest) \<Longrightarrow>
   re_sub repl (c # cs) =
     (case repl g of
        Inl e \<Rightarrow> Inl e
      | Inr v \<Rightarrow> (case re_sub repl rest of Inl e \<Rightarrow> Inl e | Inr out \<Rightarrow> Inr (v @ out)))"
  unfolding re_sub_def by simp

text \<open>
  What the scan finds, in the words of the pattern: every group found stands in the
  text between two opening and two closing braces, is not empty and has no closing
  brace; and the scan finds nothing exactly when the pattern matches at no position.
\<close>

lemma findall_written:
  assumes "g \<in> set (findall content)"
  shows "g \<noteq> [] \<and> CHR ''}'' \<notin> set g
         \<and> (\<exists>pre post. content = pre @ ''{{'' @ g @ ''}}'' @ post)"
  using assms
proof (induction content rule: scan.induct)
  case 1
  then show ?case by simp
next
  case (2 c cs)
  show ?case
  proof (cases "match_at (c # cs)")
    case None
    with "2.prems" have "g \<in> set (findall cs)"
      by (simp add: findall_pass)
    from "2.IH"(1) [OF None this] obtain pre post where
      g: "g \<noteq> []" "CHR ''}'' \<notin> set g" and cs: "cs = pre @ ''{{'' @ g @ ''}}'' @ post"
      by blast
    from cs have "c # cs = (c # pre) @ ''{{'' @ g @ ''}}'' @ post"
      by simp
    with g show ?thesis by blast
  next
    case (Some m)
    obtain g' rest where m: "m = (g', rest)" by (cases m) auto
    with Some have ma: "match_at (c # cs) = Some (g', rest)" by simp
    from match_at_Some [OF ma] have
      here: "c # cs = [] @ ''{{'' @ g' @ ''}}'' @ rest" "g' \<noteq> []" "CHR ''}'' \<notin> set g'"
      by simp_all
    from "2.prems" have "g = g' \<or> g \<in> set (findall rest)"
      by (simp add: findall_match [OF ma])
    then show ?thesis
    proof
      assume "g = g'"
      with here show ?thesis by blast
    next
      assume "g \<in> set (findall rest)"
      from "2.IH"(2) [OF Some m [symmetric] this] obtain pre post where
        g: "g \<noteq> []" "CHR ''}'' \<notin> set g" and r: "rest = pre @ ''{{'' @ g @ ''}}'' @ post"
        by blast
      from here(1) r have "c # cs = (''{{'' @ g' @ ''}}'' @ pre) @ ''{{'' @ g @ ''}}'' @ post"
        by simp
      with g show ?thesis by blast
    qed
  qed
qed

lemma findall_empty_iff:
  "findall content = [] \<longleftrightarrow> (\<forall>i. match_at (drop i content) = None)"
proof (induction content rule: scan.induct)
  case 1
  show ?case by simp
next
  case (2 c cs)
  show ?case
  proof (cases "match_at (c # cs)")
    case None
    have "(\<forall>i. match_at (drop i (c # cs)) = None) \<longleftrightarrow> (\<forall>j. match_at (drop j cs) = None)"
    proof
      assume a: "\<forall>i. match_at (drop i (c # cs)) = None"
      show "\<forall>j. match_at (drop j cs) = None"
      proof
        fix j
        from a have "match_at (drop (Suc j) (c # cs)) = None" by (rule spec)
        then show "match_at (drop j cs) = None" by simp
      qed
    next
      assume a: "\<forall>j. match_at (drop j cs) = None"
      show "\<forall>i. match_at (drop i (c # cs)) = None"
      proof
        fix i
        show "match_at (drop i (c # cs)) = None"
          using None a by (cases i) simp_all
      qed
    qed
    with "2.IH"(1) [OF None] show ?thesis
      by (simp add: findall_pass [OF None])
  next
    case (Some m)
    obtain g rest where m: "m = (g, rest)" by (cases m) auto
    with Some have ma: "match_at (c # cs) = Some (g, rest)" by simp
    have "\<not> (\<forall>i. match_at (drop i (c # cs)) = None)"
    proof
      assume "\<forall>i. match_at (drop i (c # cs)) = None"
      then have "match_at (drop 0 (c # cs)) = None" by (rule spec)
      with ma show False by simp
    qed
    then show ?thesis
      by (simp add: findall_match [OF ma])
  qed
qed

section \<open>Substitution\<close>

lemma render_decomposition:
  assumes "\<forall>g \<in> set (findall content). map_of vars (strip g) \<noteq> None"
  shows "\<exists>parts tail.
           content = template_text parts tail
           \<and> re_sub (replace vars) content = Inr (filled_text parts tail)
           \<and> (\<forall>(l, g, v) \<in> set parts. findall l = [] \<and> map_of vars (strip g) = Some v)
           \<and> findall tail = []
           \<and> map (\<lambda>(l, g, v). g) parts = findall content"
  using assms
proof (induction content rule: scan.induct)
  case 1
  have "[] = template_text [] []
        \<and> re_sub (replace vars) [] = Inr (filled_text [] [])
        \<and> (\<forall>(l, g, v) \<in> set []. findall l = [] \<and> map_of vars (strip g) = Some v)
        \<and> findall [] = []
        \<and> map (\<lambda>(l, g, v). g) ([] :: part list) = findall []"
    by (simp add: re_sub_def)
  then show ?case by blast
next
  case (2 c cs)
  show ?case
  proof (cases "match_at (c # cs)")
    case None
    have fa: "findall (c # cs) = findall cs" by (rule findall_pass [OF None])
    with "2.prems" have "\<forall>g \<in> set (findall cs). map_of vars (strip g) \<noteq> None" by simp
    from "2.IH"(1) [OF None this] obtain parts tail where
      src: "cs = template_text parts tail"
      and out: "re_sub (replace vars) cs = Inr (filled_text parts tail)"
      and lit: "\<forall>(l, g, v) \<in> set parts. findall l = [] \<and> map_of vars (strip g) = Some v"
      and tl: "findall tail = []"
      and gs: "map (\<lambda>(l, g, v). g) parts = findall cs"
      by blast
    have out': "re_sub (replace vars) (c # cs) = Inr (c # filled_text parts tail)"
      by (simp add: re_sub_pass [OF None] out)
    show ?thesis
    proof (cases parts)
      case Nil
      with src have "cs = tail" by simp
      with fa tl have "findall (c # tail) = []" by simp
      with Nil src out' fa gs
      have "c # cs = template_text [] (c # tail)
            \<and> re_sub (replace vars) (c # cs) = Inr (filled_text [] (c # tail))
            \<and> (\<forall>(l, g, v) \<in> set []. findall l = [] \<and> map_of vars (strip g) = Some v)
            \<and> findall (c # tail) = []
            \<and> map (\<lambda>(l, g, v). g) ([] :: part list) = findall (c # cs)"
        by simp
      then show ?thesis by blast
    next
      case (Cons p ps)
      obtain l g v where p: "p = (l, g, v)" by (cases p) auto
      from lit Cons p have l: "findall l = []" and v: "map_of vars (strip g) = Some v"
        by auto
      have "match_at (c # l) = None"
      proof (rule ccontr)
        assume "match_at (c # l) \<noteq> None"
        then obtain g' r' where "match_at (c # l) = Some (g', r')" by auto
        from match_at_append [OF this, of "''{{'' @ g @ ''}}'' @ template_text ps tail"]
        show False using None src Cons p by simp
      qed
      then have l': "findall (c # l) = []" using l by (simp add: findall_pass)
      have "c # cs = template_text ((c # l, g, v) # ps) tail
            \<and> re_sub (replace vars) (c # cs) = Inr (filled_text ((c # l, g, v) # ps) tail)
            \<and> (\<forall>(l, g, v) \<in> set ((c # l, g, v) # ps).
                  findall l = [] \<and> map_of vars (strip g) = Some v)
            \<and> findall tail = []
            \<and> map (\<lambda>(l, g, v). g) ((c # l, g, v) # ps) = findall (c # cs)"
        using src out' lit tl gs fa Cons p l' v by simp
      then show ?thesis by blast
    qed
  next
    case (Some m)
    obtain g rest where m: "m = (g, rest)" by (cases m) auto
    with Some have ma: "match_at (c # cs) = Some (g, rest)" by simp
    have fa: "findall (c # cs) = g # findall rest" by (rule findall_match [OF ma])
    with "2.prems" obtain v where v: "map_of vars (strip g) = Some v" by auto
    from fa "2.prems" have "\<forall>g \<in> set (findall rest). map_of vars (strip g) \<noteq> None" by simp
    from "2.IH"(2) [OF Some m [symmetric] this] obtain parts tail where
      src: "rest = template_text parts tail"
      and out: "re_sub (replace vars) rest = Inr (filled_text parts tail)"
      and lit: "\<forall>(l, g, v) \<in> set parts. findall l = [] \<and> map_of vars (strip g) = Some v"
      and tl: "findall tail = []"
      and gs: "map (\<lambda>(l, g, v). g) parts = findall rest"
      by blast
    from match_at_Some [OF ma] have cs: "c # cs = ''{{'' @ g @ ''}}'' @ rest" by simp
    have out': "re_sub (replace vars) (c # cs) = Inr (v @ filled_text parts tail)"
      by (simp add: re_sub_match [OF ma] out replace_def v)
    have "c # cs = template_text (([], g, v) # parts) tail
          \<and> re_sub (replace vars) (c # cs) = Inr (filled_text (([], g, v) # parts) tail)
          \<and> (\<forall>(l, g, v) \<in> set (([], g, v) # parts).
                findall l = [] \<and> map_of vars (strip g) = Some v)
          \<and> findall tail = []
          \<and> map (\<lambda>(l, g, v). g) (([], g, v) # parts) = findall (c # cs)"
      using cs src out' lit tl gs fa v by simp
    then show ?thesis by blast
  qed
qed

lemma re_sub_missing:
  assumes "\<exists>g \<in> set (findall content). map_of vars (strip g) = None"
  shows "\<exists>g \<in> set (findall content). map_of vars (strip g) = None
           \<and> re_sub (replace vars) content =
               Inl (KeyError (''Missing template variable: '' @ [squote] @ strip g @ [squote]))"
  using assms
proof (induction content rule: scan.induct)
  case 1
  then show ?case by simp
next
  case (2 c cs)
  show ?case
  proof (cases "match_at (c # cs)")
    case None
    have fa: "findall (c # cs) = findall cs" by (rule findall_pass [OF None])
    with "2.prems" have "\<exists>g \<in> set (findall cs). map_of vars (strip g) = None" by simp
    from "2.IH"(1) [OF None this] show ?thesis
      by (auto simp: fa re_sub_pass [OF None])
  next
    case (Some m)
    obtain g rest where m: "m = (g, rest)" by (cases m) auto
    with Some have ma: "match_at (c # cs) = Some (g, rest)" by simp
    have fa: "findall (c # cs) = g # findall rest" by (rule findall_match [OF ma])
    show ?thesis
    proof (cases "map_of vars (strip g)")
      case None
      then show ?thesis
        by (simp add: fa re_sub_match [OF ma] replace_def)
    next
      case (Some v)
      with fa "2.prems" have "\<exists>g \<in> set (findall rest). map_of vars (strip g) = None"
        by auto
      from "2.IH"(2) [OF \<open>match_at (c # cs) = Some m\<close> m [symmetric] this] show ?thesis
        by (auto simp: fa re_sub_match [OF ma] replace_def Some)
    qed
  qed
qed

text \<open>
  Values that are not empty and have no brace leave no placeholder behind: a match in
  the text returned would need its two opening braces, its name and its two closing
  braces from the literal text of the template, where the scan would have found it.
\<close>

lemma match_at_closes:
  "match_at s \<noteq> None \<longleftrightarrow> (\<exists>t. s = CHR ''{'' # CHR ''{'' # t \<and> closes t)"
proof (cases s)
  case Nil
  then show ?thesis by simp
next
  case outer: (Cons c1 s')
  show ?thesis
  proof (cases s')
    case Nil
    with outer show ?thesis by simp
  next
    case inner: (Cons c2 t)
    let ?P = "\<lambda>c. c \<noteq> CHR ''}''"
    define d where "d = dropWhile ?P t"
    have ma: "match_at (c1 # c2 # t) =
                (if c1 = CHR ''{'' \<and> c2 = CHR ''{'' then
                   (if takeWhile ?P t = [] then None
                    else (case d of
                            d1 # d2 # r \<Rightarrow>
                              if d1 = CHR ''}'' \<and> d2 = CHR ''}''
                              then Some (takeWhile ?P t, r) else None
                          | _ \<Rightarrow> None))
                 else None)"
      by (simp add: Let_def d_def)
    have cl: "closes t \<longleftrightarrow> takeWhile ?P t \<noteq> [] \<and> (\<exists>r. d = CHR ''}'' # CHR ''}'' # r)"
      by (simp add: closes_def d_def)
    have "match_at (c1 # c2 # t) \<noteq> None
            \<longleftrightarrow> c1 = CHR ''{'' \<and> c2 = CHR ''{'' \<and> closes t"
    proof (cases d)
      case Nil
      then show ?thesis unfolding ma cl by simp
    next
      case first: (Cons d1 ds)
      show ?thesis
      proof (cases ds)
        case Nil
        with first show ?thesis unfolding ma cl by simp
      next
        case (Cons d2 r)
        with first show ?thesis unfolding ma cl by auto
      qed
    qed
    with outer inner show ?thesis by simp
  qed
qed

lemma match_at_not_open: "c \<noteq> CHR ''{'' \<Longrightarrow> match_at (c # s) = None"
  by (cases s) simp_all

lemma findall_after_plain:
  "CHR ''{'' \<notin> set v \<Longrightarrow> findall (v @ s) = findall s"
proof (induction v)
  case Nil
  show ?case by simp
next
  case (Cons a v)
  then have "a \<noteq> CHR ''{''"
    by auto
  then have "match_at (a # (v @ s)) = None"
    by (rule match_at_not_open)
  from findall_pass [OF this] Cons show ?case by simp
qed

lemma dropWhile_to_close:
  "CHR ''}'' \<notin> set g \<Longrightarrow>
   dropWhile (\<lambda>c. c \<noteq> CHR ''}'') (g @ CHR ''}'' # x) = CHR ''}'' # x"
  by (induction g) auto

lemma takeWhile_to_close:
  "CHR ''}'' \<notin> set g \<Longrightarrow>
   takeWhile (\<lambda>c. c \<noteq> CHR ''}'') (g @ CHR ''}'' # x) = g"
  by (induction g) auto

lemma closes_intro:
  "x \<noteq> [] \<Longrightarrow> CHR ''}'' \<notin> set x \<Longrightarrow> closes (x @ CHR ''}'' # CHR ''}'' # rest)"
  by (simp add: closes_def takeWhile_to_close dropWhile_to_close)

lemma token_closes:
  assumes "match_at s = Some (g, rest)"
  shows "closes s"
proof -
  from match_at_Some [OF assms] have s: "s = (''{{'' @ g) @ CHR ''}'' # CHR ''}'' # rest"
    and g: "CHR ''}'' \<notin> set (''{{'' @ g)"
    by simp_all
  have "closes ((''{{'' @ g) @ CHR ''}'' # CHR ''}'' # rest)"
    by (rule closes_intro [OF _ g]) simp
  then show ?thesis
    by (simp only: s [symmetric])
qed

lemma plainly_covered_pass:
  "match_at (c # cs) = None \<Longrightarrow> plainly_covered vars (c # cs) = plainly_covered vars cs"
  by (simp add: plainly_covered_def findall_pass)

lemma plainly_covered_match:
  assumes "match_at (c # cs) = Some (g, rest)" and "plainly_covered vars (c # cs)"
  shows "plainly_covered vars rest \<and> (\<exists>v. replace vars g = Inr v \<and> plain_value v)"
  using assms(2)
  by (auto simp: plainly_covered_def findall_match [OF assms(1)] replace_def)

lemma rendered_head_brace:
  assumes r: "re_sub (replace vars) t = Inr (b # out)" and c: "plainly_covered vars t"
    and b: "b = CHR ''{'' \<or> b = CHR ''}''"
  shows "\<exists>t'. t = b # t' \<and> match_at t = None \<and> re_sub (replace vars) t' = Inr out"
proof (cases t)
  case Nil
  with r show ?thesis by (simp add: re_sub_def)
next
  case (Cons a cs)
  show ?thesis
  proof (cases "match_at (a # cs)")
    case None
    from r Cons have "a = b \<and> re_sub (replace vars) cs = Inr out"
      by (auto simp: re_sub_pass [OF None] split: sum.splits)
    with Cons None show ?thesis by simp
  next
    case (Some m)
    obtain g rest where m: "m = (g, rest)" by (cases m) auto
    with Some have ma: "match_at (a # cs) = Some (g, rest)" by simp
    from plainly_covered_match [OF ma] c Cons obtain v where
      v: "replace vars g = Inr v" "plain_value v"
      by auto
    from r Cons v(1) obtain w where "v @ w = b # out"
      by (auto simp: re_sub_match [OF ma] split: sum.splits)
    with v(2) b have False
      by (cases v) (auto simp: plain_value_def)
    then show ?thesis ..
  qed
qed

lemma rendered_close_pair:
  assumes "re_sub (replace vars) t = Inr out" and "plainly_covered vars t"
    and "dropWhile (\<lambda>c. c \<noteq> CHR ''}'') out = CHR ''}'' # CHR ''}'' # r"
  shows "\<exists>r'. dropWhile (\<lambda>c. c \<noteq> CHR ''}'') t = CHR ''}'' # CHR ''}'' # r'"
  using assms
proof (induction t arbitrary: out r rule: scan.induct)
  case 1
  then show ?case by (simp add: re_sub_def)
next
  case (2 c cs)
  let ?P = "\<lambda>c. c \<noteq> CHR ''}''"
  show ?case
  proof (cases "match_at (c # cs)")
    case None
    from "2.prems"(1) obtain w where w: "re_sub (replace vars) cs = Inr w" and out: "out = c # w"
      by (auto simp: re_sub_pass [OF None] split: sum.splits)
    from "2.prems"(2) have cov: "plainly_covered vars cs"
      by (simp add: plainly_covered_pass [OF None])
    show ?thesis
    proof (cases "c = CHR ''}''")
      case True
      with "2.prems"(3) out have "w = CHR ''}'' # r" by simp
      with w have "re_sub (replace vars) cs = Inr (CHR ''}'' # r)" by simp
      from rendered_head_brace [OF this cov] obtain t' where "cs = CHR ''}'' # t'"
        by auto
      with True show ?thesis by simp
    next
      case False
      with "2.prems"(3) out have "dropWhile ?P w = CHR ''}'' # CHR ''}'' # r" by simp
      from "2.IH"(1) [OF None w cov this] False show ?thesis by simp
    qed
  next
    case (Some m)
    obtain g rest where m: "m = (g, rest)" by (cases m) auto
    with Some have ma: "match_at (c # cs) = Some (g, rest)" by simp
    from token_closes [OF ma] show ?thesis
      by (auto simp: closes_def)
  qed
qed

lemma rendered_closes:
  assumes r: "re_sub (replace vars) t = Inr out" and c: "plainly_covered vars t"
    and cl: "closes out"
  shows "closes t"
proof (cases t)
  case Nil
  with r cl show ?thesis by (simp add: re_sub_def closes_def)
next
  case (Cons a cs)
  let ?P = "\<lambda>c. c \<noteq> CHR ''}''"
  show ?thesis
  proof (cases "match_at (a # cs)")
    case None
    from r Cons obtain w where w: "re_sub (replace vars) cs = Inr w" and out: "out = a # w"
      by (auto simp: re_sub_pass [OF None] split: sum.splits)
    from c Cons have cov: "plainly_covered vars cs"
      by (simp add: plainly_covered_pass [OF None])
    from cl out have a: "a \<noteq> CHR ''}''"
      by (auto simp: closes_def)
    with cl out obtain r' where "dropWhile ?P w = CHR ''}'' # CHR ''}'' # r'"
      by (auto simp: closes_def)
    from rendered_close_pair [OF w cov this] obtain r'' where
      "dropWhile ?P cs = CHR ''}'' # CHR ''}'' # r''" by blast
    with a Cons show ?thesis
      by (simp add: closes_def)
  next
    case (Some m)
    obtain g rest where m: "m = (g, rest)" by (cases m) auto
    with Some have ma: "match_at (a # cs) = Some (g, rest)" by simp
    from token_closes [OF ma] Cons show ?thesis by simp
  qed
qed

lemma rendered_has_no_placeholder:
  assumes "re_sub (replace vars) t = Inr out" and "plainly_covered vars t"
  shows "findall out = []"
  using assms
proof (induction t arbitrary: out rule: scan.induct)
  case 1
  then show ?case by (simp add: re_sub_def)
next
  case (2 c cs)
  show ?case
  proof (cases "match_at (c # cs)")
    case None
    from "2.prems"(1) obtain w where w: "re_sub (replace vars) cs = Inr w" and out: "out = c # w"
      by (auto simp: re_sub_pass [OF None] split: sum.splits)
    from "2.prems"(2) have cov: "plainly_covered vars cs"
      by (simp add: plainly_covered_pass [OF None])
    from "2.IH"(1) [OF None w cov] have rest: "findall w = []" .
    have "match_at (c # w) = None"
    proof (rule ccontr)
      assume "match_at (c # w) \<noteq> None"
      then obtain t' where co: "c # w = CHR ''{'' # CHR ''{'' # t'" and cl: "closes t'"
        unfolding match_at_closes by blast
      from co have c: "c = CHR ''{''" and w': "w = CHR ''{'' # t'" by simp_all
      from w w' have "re_sub (replace vars) cs = Inr (CHR ''{'' # t')" by simp
      from rendered_head_brace [OF this cov] obtain t'' where
        cs: "cs = CHR ''{'' # t''" and none: "match_at cs = None"
        and r'': "re_sub (replace vars) t'' = Inr t'"
        by auto
      from cov cs none have "plainly_covered vars t''"
        by (simp add: plainly_covered_pass)
      from rendered_closes [OF r'' this cl] have "closes t''" .
      with c cs have "match_at (c # cs) \<noteq> None"
        unfolding match_at_closes by blast
      with None show False by simp
    qed
    with rest out show ?thesis
      by (simp add: findall_pass)
  next
    case (Some m)
    obtain g rest where m: "m = (g, rest)" by (cases m) auto
    with Some have ma: "match_at (c # cs) = Some (g, rest)" by simp
    from plainly_covered_match [OF ma "2.prems"(2)] obtain v where
      cov: "plainly_covered vars rest" and v: "replace vars g = Inr v" "plain_value v"
      by auto
    from "2.prems"(1) v(1) obtain w where w: "re_sub (replace vars) rest = Inr w"
      and out: "out = v @ w"
      by (auto simp: re_sub_match [OF ma] split: sum.splits)
    from "2.IH"(2) [OF Some m [symmetric] w cov] have "findall w = []" .
    with v(2) out show ?thesis
      by (simp add: findall_after_plain plain_value_def)
  qed
qed

section \<open>The extractor\<close>

lemma fromkeys_positions:
  "fromkeys seen xs =
     seen @ map (\<lambda>i. xs ! i)
              (filter (\<lambda>i. xs ! i \<notin> set seen \<union> set (take i xs)) [0..<length xs])"
proof (induction xs arbitrary: seen)
  case Nil
  show ?case by simp
next
  case (Cons x xs)
  have upt: "[0..<length (x # xs)] = 0 # map Suc [0..<length xs]"
    by (simp add: upt_conv_Cons map_Suc_upt del: upt_Suc)
  show ?case
    unfolding upt
    by (auto simp add: Cons.IH filter_map comp_def
          intro!: arg_cong [where f = "map ((!) xs)"] filter_cong)
qed

lemma distinct_fromkeys: "distinct seen \<Longrightarrow> distinct (fromkeys seen xs)"
  by (induction xs arbitrary: seen) auto

lemma set_fromkeys: "set (fromkeys seen xs) = set seen \<union> set xs"
  by (induction xs arbitrary: seen) auto

lemma set_extract_vars: "set (extract_vars content) = strip ` set (findall content)"
  by (simp add: extract_vars_def set_fromkeys)

text \<open>
  C3. For every template text the extractor returns the trimmed names of the
  placeholders that the pattern finds, each once, in the order of their first
  occurrence; a text in which the pattern finds nothing gives the empty list; and
  \<^verbatim>\<open>{{b}} {{a}} {{b}}\<close> gives \<^verbatim>\<open>["b", "a"]\<close>.
\<close>

theorem extract_vars_first_occurrences:
  "extract_vars content = first_occurrences (map strip (findall content))
   \<and> distinct (extract_vars content)
   \<and> set (extract_vars content) = strip ` set (findall content)
   \<and> (findall content = [] \<longrightarrow> extract_vars content = [])
   \<and> extract_vars ''{{b}} {{a}} {{b}}'' = [''b'', ''a'']"
proof -
  have a: "extract_vars content = first_occurrences (map strip (findall content))"
    by (simp add: extract_vars_def fromkeys_positions first_occurrences_def)
  have b: "distinct (extract_vars content)"
    by (simp add: extract_vars_def distinct_fromkeys)
  have c: "findall content = [] \<longrightarrow> extract_vars content = []"
    by (simp add: extract_vars_def)
  have d: "extract_vars ''{{b}} {{a}} {{b}}'' = [''b'', ''a'']"
    by (simp add: extract_vars_def findall_def strip_def is_space_def code_point_def)
  show ?thesis
    by (intro conjI a b c d set_extract_vars)
qed

theorem extract_vars_first_occurrences_witness:
  "findall ''plain text, no braces'' = []
   \<and> extract_vars ''plain text, no braces'' = []
   \<and> extract_vars ''{{ b }}{{a}} {{b}}{{  a}}'' = [''b'', ''a'']
   \<and> first_occurrences (map strip (findall ''{{ b }}{{a}} {{b}}{{  a}}'')) = [''b'', ''a'']"
proof -
  have h: "findall ''plain text, no braces'' = []"
    by (simp add: findall_def)
  have e: "extract_vars ''{{ b }}{{a}} {{b}}{{  a}}'' = [''b'', ''a'']"
    by (simp add: extract_vars_def findall_def strip_def is_space_def code_point_def)
  from extract_vars_first_occurrences [of "''plain text, no braces''"]
  have "findall ''plain text, no braces'' = [] \<longrightarrow> extract_vars ''plain text, no braces'' = []"
    by (elim conjE)
  then have n: "extract_vars ''plain text, no braces'' = []"
    using h by (rule mp)
  from extract_vars_first_occurrences [of "''{{ b }}{{a}} {{b}}{{  a}}''"]
  have a: "extract_vars ''{{ b }}{{a}} {{b}}{{  a}}''
             = first_occurrences (map strip (findall ''{{ b }}{{a}} {{b}}{{  a}}''))"
    by (rule conjunct1)
  have f: "first_occurrences (map strip (findall ''{{ b }}{{a}} {{b}}{{  a}}''))
             = [''b'', ''a'']"
    by (rule trans [OF sym [OF a] e])
  show ?thesis
    by (intro conjI h n e f)
qed

section \<open>Rendering claims\<close>

text \<open>
  C1. If the trimmed name of a placeholder of the text is not a key of the mapping,
  \<^verbatim>\<open>_render\<close> raises a \<^verbatim>\<open>KeyError\<close> whose message names a missing name, and so
  returns no text at all. Through \<^verbatim>\<open>render\<close> on a stored template the failure is a
  \<^verbatim>\<open>ValueError\<close> and the engine is unchanged, while a template that does not exist
  gives a \<^verbatim>\<open>KeyError\<close>.
\<close>

theorem missing_variable_fails:
  assumes "g \<in> set (findall content)" and "map_of variables (strip g) = None"
  shows "\<exists>k. k \<in> set (extract_vars content) \<and> map_of variables k = None
           \<and> private_render content variables =
               Inl (KeyError (''Missing template variable: '' @ [squote] @ k @ [squote]))
           \<and> (\<forall>s row title fmt ts.
                 select_template s name = Some row \<and> t_content row = content \<longrightarrow>
                 render s name title variables fmt ts =
                   (Inl (ValueError
                      (py_repr (''Missing template variable: '' @ [squote] @ k @ [squote]))), s))
           \<and> (\<forall>s title fmt ts.
                 select_template s name = None \<longrightarrow>
                 render s name title variables fmt ts =
                   (Inl (KeyError (''Template '' @ [squote] @ name @ [squote] @ '' not found'')), s))"
proof -
  from assms have "\<exists>g \<in> set (findall content). map_of variables (strip g) = None"
    by blast
  from re_sub_missing [OF this] obtain g' where
    g': "g' \<in> set (findall content)" "map_of variables (strip g') = None"
    and r: "re_sub (replace variables) content =
              Inl (KeyError (''Missing template variable: '' @ [squote] @ strip g' @ [squote]))"
    by blast
  let ?k = "strip g'"
  have k: "?k \<in> set (extract_vars content)"
    using g'(1) by (simp add: set_extract_vars)
  have pr: "private_render content variables =
              Inl (KeyError (''Missing template variable: '' @ [squote] @ ?k @ [squote]))"
    using r by (simp add: private_render_def)
  have rd: "\<forall>s row title fmt ts.
              select_template s name = Some row \<and> t_content row = content \<longrightarrow>
              render s name title variables fmt ts =
                (Inl (ValueError
                   (py_repr (''Missing template variable: '' @ [squote] @ ?k @ [squote]))), s)"
    by (simp add: render_def pr)
  have nf: "\<forall>s title fmt ts.
              select_template s name = None \<longrightarrow>
              render s name title variables fmt ts =
                (Inl (KeyError (''Template '' @ [squote] @ name @ [squote] @ '' not found'')), s)"
    by (simp add: render_def)
  from k g'(2) pr rd nf show ?thesis
    by (intro exI [of _ ?k] conjI)
qed

theorem missing_variable_fails_witness:
  "''amount'' \<in> set (findall greeting)
   \<and> map_of [(''name'', ''Alice'')] (strip ''amount'') = None
   \<and> private_render greeting [(''name'', ''Alice'')] =
       Inl (KeyError (''Missing template variable: '' @ [squote] @ ''amount'' @ [squote]))
   \<and> render engine_one ''greet'' ''Bill'' [(''name'', ''Alice'')] ''txt'' ''t1'' =
       (Inl (ValueError ([dquote] @ ''Missing template variable: '' @ [squote] @ ''amount''
                           @ [squote] @ [dquote])), engine_one)
   \<and> render engine_one ''other'' ''Bill'' [(''name'', ''Alice'')] ''txt'' ''t1'' =
       (Inl (KeyError (''Template '' @ [squote] @ ''other'' @ [squote] @ '' not found'')), engine_one)"
proof -
  have h1: "''amount'' \<in> set (findall greeting)"
    by (simp add: greeting_def findall_def)
  have h2: "map_of [(''name'', ''Alice'')] (strip ''amount'') = None"
    by (simp add: strip_def is_space_def code_point_def)
  have ev: "extract_vars greeting = [''name'', ''amount'']"
    by (simp add: greeting_def extract_vars_def findall_def strip_def is_space_def code_point_def)
  have sel: "select_template engine_one ''greet'' =
     Some \<lparr>t_id = 1, t_name = ''greet'', t_content = greeting,
           t_variables = json_dumps_list (extract_vars greeting), t_category = ''general'',
           t_version = 1, t_created_at = ''t0'', t_updated_at = ''t0''\<rparr>"
    by (simp add: engine_one_def run_def create_template_def select_template_def get_db_def Let_def)
  have nsel: "select_template engine_one ''other'' = None"
    by (simp add: engine_one_def run_def create_template_def select_template_def get_db_def Let_def)
  from missing_variable_fails [OF h1 h2, of "''greet''"] obtain k where
    k: "k \<in> set (extract_vars greeting)" "map_of [(''name'', ''Alice'')] k = None"
    and pr: "private_render greeting [(''name'', ''Alice'')] =
       Inl (KeyError (''Missing template variable: '' @ [squote] @ k @ [squote]))"
    and rd: "\<forall>s row title fmt ts.
                 select_template s ''greet'' = Some row \<and> t_content row = greeting \<longrightarrow>
                 render s ''greet'' title [(''name'', ''Alice'')] fmt ts =
                   (Inl (ValueError
                      (py_repr (''Missing template variable: '' @ [squote] @ k @ [squote]))), s)"
    by blast
  from k ev have keq: "k = ''amount''" by auto
  have rp: "py_repr (''Missing template variable: '' @ [squote] @ ''amount'' @ [squote])
        = [dquote] @ ''Missing template variable: '' @ [squote] @ ''amount'' @ [squote] @ [dquote]"
    by (simp add: py_repr_def squote_def dquote_def repr_char_def backslash_def is_printable_def code_point_def Let_def)
  from rd sel have "render engine_one ''greet'' ''Bill'' [(''name'', ''Alice'')] ''txt'' ''t1'' =
                   (Inl (ValueError
                      (py_repr (''Missing template variable: '' @ [squote] @ k @ [squote]))), engine_one)"
    by simp
  then have c4: "render engine_one ''greet'' ''Bill'' [(''name'', ''Alice'')] ''txt'' ''t1'' =
       (Inl (ValueError ([dquote] @ ''Missing template variable: '' @ [squote] @ ''amount''
                           @ [squote] @ [dquote])), engine_one)"
    unfolding keq rp .
  from missing_variable_fails [OF h1 h2, of "''other''"] nsel
  have c5: "render engine_one ''other'' ''Bill'' [(''name'', ''Alice'')] ''txt'' ''t1'' =
       (Inl (KeyError (''Template '' @ [squote] @ ''other'' @ [squote] @ '' not found'')), engine_one)"
    by blast
  from pr keq have c3: "private_render greeting [(''name'', ''Alice'')] =
       Inl (KeyError (''Missing template variable: '' @ [squote] @ ''amount'' @ [squote]))"
    by simp
  show ?thesis
    by (intro conjI h1 h2 c3 c4 c5)
qed

text \<open>
  C2 as stated fails. The text returned is not scanned again, and an empty value joins
  the literal text on its two sides: from the template \<^verbatim>\<open>{{a}{{a}}}\<close> and the value
  \<^verbatim>\<open>""\<close> for \<^verbatim>\<open>a\<close>, substitution returns \<^verbatim>\<open>{{a}}\<close>, a placeholder of the template, and
  the document rendered holds it as its content.
\<close>

theorem empty_value_joins_a_placeholder:
  "extract_vars ''{{a}{{a}}}'' = [''a'']
   \<and> map_of [(''a'', '''')] ''a'' = Some ''''
   \<and> private_render ''{{a}{{a}}}'' [(''a'', '''')] = Inr ''{{a}}''
   \<and> extract_vars ''{{a}}'' = [''a'']
   \<and> map d_content
         (documents (run (get_db ''/home/u'')
            [CreateTemplate ''joined'' ''{{a}{{a}}}'' ''general'' ''t0'',
             Render ''joined'' ''Title'' [(''a'', '''')] ''txt'' ''t1''])) = [''{{a}}'']"
  by (simp add: eval_defs)

text \<open>
  C2, amended. If the mapping has every placeholder name of the text, \<^verbatim>\<open>_render\<close>
  returns a text. The template text is cut at its placeholders, which are the matches
  of the pattern in order; the pieces of literal text between them hold no placeholder
  and are copied, and each placeholder is replaced by its value, which is not scanned
  again. A document rendered from a stored template holds that text as its content.
  When every value substituted is not empty and has no brace, the text returned holds
  no placeholder.
\<close>

theorem render_replaces_every_placeholder:
  assumes "\<forall>n \<in> set (extract_vars content). map_of variables n \<noteq> None"
  shows "(\<exists>parts tail.
            content = template_text parts tail
            \<and> map (\<lambda>(l, g, v). g) parts = findall content
            \<and> (\<forall>(l, g, v) \<in> set parts. findall l = [] \<and> map_of variables (strip g) = Some v)
            \<and> findall tail = []
            \<and> private_render content variables = Inr (filled_text parts tail)
            \<and> (\<forall>s row name title fmt ts.
                  select_template s name = Some row \<and> t_content row = content \<longrightarrow>
                  (\<exists>doc. render s name title variables fmt ts =
                           (Inr doc, s\<lparr>documents := documents s @ [doc],
                                       documents_seq := documents_seq s + 1\<rparr>)
                         \<and> d_content doc = filled_text parts tail
                         \<and> d_status doc = ''draft''))
            \<and> ((\<forall>n \<in> set (extract_vars content).
                    \<forall>v. map_of variables n = Some v \<longrightarrow> plain_value v) \<longrightarrow>
                 findall (filled_text parts tail) = []))
         \<and> private_render ''{{a}}'' [(''a'', ''{{b}}''), (''b'', ''X'')] = Inr ''{{b}}''"
proof -
  from assms have cov: "\<forall>g \<in> set (findall content). map_of variables (strip g) \<noteq> None"
    by (simp add: set_extract_vars)
  from render_decomposition [OF this] obtain parts tail where
    src: "content = template_text parts tail"
    and out: "re_sub (replace variables) content = Inr (filled_text parts tail)"
    and lit: "\<forall>(l, g, v) \<in> set parts. findall l = [] \<and> map_of variables (strip g) = Some v"
    and tl: "findall tail = []"
    and gs: "map (\<lambda>(l, g, v). g) parts = findall content"
    by blast
  have pr: "private_render content variables = Inr (filled_text parts tail)"
    using out by (simp add: private_render_def)
  have rd: "\<forall>s row name title fmt ts.
              select_template s name = Some row \<and> t_content row = content \<longrightarrow>
              (\<exists>doc. render s name title variables fmt ts =
                       (Inr doc, s\<lparr>documents := documents s @ [doc],
                                   documents_seq := documents_seq s + 1\<rparr>)
                     \<and> d_content doc = filled_text parts tail
                     \<and> d_status doc = ''draft'')"
    by (simp add: render_def pr Let_def)
  have pl: "(\<forall>n \<in> set (extract_vars content).
               \<forall>v. map_of variables n = Some v \<longrightarrow> plain_value v) \<longrightarrow>
            findall (filled_text parts tail) = []"
  proof
    assume plain: "\<forall>n \<in> set (extract_vars content).
                     \<forall>v. map_of variables n = Some v \<longrightarrow> plain_value v"
    have "plainly_covered variables content"
      unfolding plainly_covered_def
    proof
      fix g
      assume g: "g \<in> set (findall content)"
      with cov obtain v where v: "map_of variables (strip g) = Some v" by auto
      from g have "strip g \<in> set (extract_vars content)"
        by (simp add: set_extract_vars)
      with plain v have "plain_value v" by blast
      with v show "\<exists>v. map_of variables (strip g) = Some v \<and> plain_value v" by blast
    qed
    from rendered_has_no_placeholder [OF out this]
    show "findall (filled_text parts tail) = []" .
  qed
  have ex: "private_render ''{{a}}'' [(''a'', ''{{b}}''), (''b'', ''X'')] = Inr ''{{b}}''"
    by (simp add: private_render_def re_sub_def replace_def strip_def is_space_def code_point_def)
  from src gs lit tl pr rd pl
  have "\<exists>parts tail.
            content = template_text parts tail
            \<and> map (\<lambda>(l, g, v). g) parts = findall content
            \<and> (\<forall>(l, g, v) \<in> set parts. findall l = [] \<and> map_of variables (strip g) = Some v)
            \<and> findall tail = []
            \<and> private_render content variables = Inr (filled_text parts tail)
            \<and> (\<forall>s row name title fmt ts.
                  select_template s name = Some row \<and> t_content row = content \<longrightarrow>
                  (\<exists>doc. render s name title variables fmt ts =
                           (Inr doc, s\<lparr>documents := documents s @ [doc],
                                       documents_seq := documents_seq s + 1\<rparr>)
                         \<and> d_content doc = filled_text parts tail
                         \<and> d_status doc = ''draft''))
            \<and> ((\<forall>n \<in> set (extract_vars content).
                    \<forall>v. map_of variables n = Some v \<longrightarrow> plain_value v) \<longrightarrow>
                 findall (filled_text parts tail) = [])"
    by (intro exI [of _ parts] exI [of _ tail] conjI)
  with ex show ?thesis by (rule conjI [rotated])
qed

theorem render_replaces_every_placeholder_witness:
  "extract_vars greeting = [''name'', ''amount'']
   \<and> map_of [(''name'', ''Alice''), (''amount'', ''42'')] ''name'' = Some ''Alice''
   \<and> map_of [(''name'', ''Alice''), (''amount'', ''42'')] ''amount'' = Some ''42''
   \<and> plain_value ''Alice'' \<and> plain_value ''42''
   \<and> private_render greeting [(''name'', ''Alice''), (''amount'', ''42'')] =
       Inr ''Hello Alice, you owe 42''
   \<and> (\<exists>parts tail. greeting = template_text parts tail
         \<and> filled_text parts tail = ''Hello Alice, you owe 42'')
   \<and> findall ''Hello Alice, you owe 42'' = []
   \<and> (\<exists>doc s'. render engine_one ''greet'' ''Bill'' [(''name'', ''Alice''), (''amount'', ''42'')]
                    ''txt'' ''t1'' = (Inr doc, s')
         \<and> d_content doc = ''Hello Alice, you owe 42'' \<and> d_status doc = ''draft'')"
proof -
  let ?V = "[(''name'', ''Alice''), (''amount'', ''42'')]"
  have ev: "extract_vars greeting = [''name'', ''amount'']"
    by (simp add: greeting_def extract_vars_def findall_def strip_def is_space_def code_point_def)
  have m1: "map_of ?V ''name'' = Some ''Alice''" by simp
  have m2: "map_of ?V ''amount'' = Some ''42''" by simp
  have p1: "plain_value ''Alice''" by (simp add: plain_value_def)
  have p2: "plain_value ''42''" by (simp add: plain_value_def)
  have h: "\<forall>n \<in> set (extract_vars greeting). map_of ?V n \<noteq> None"
    unfolding ev by simp
  have hp: "\<forall>n \<in> set (extract_vars greeting). \<forall>v. map_of ?V n = Some v \<longrightarrow> plain_value v"
    unfolding ev using p1 p2 by simp
  have direct: "private_render greeting ?V = Inr ''Hello Alice, you owe 42''"
    by (simp add: greeting_def private_render_def re_sub_def replace_def strip_def
          is_space_def code_point_def)
  have sel: "select_template engine_one ''greet'' =
     Some \<lparr>t_id = 1, t_name = ''greet'', t_content = greeting,
           t_variables = json_dumps_list (extract_vars greeting), t_category = ''general'',
           t_version = 1, t_created_at = ''t0'', t_updated_at = ''t0''\<rparr>"
    by (simp add: engine_one_def run_def create_template_def select_template_def get_db_def Let_def)
  from render_replaces_every_placeholder [OF h] obtain parts tail where
    src: "greeting = template_text parts tail"
    and pr: "private_render greeting ?V = Inr (filled_text parts tail)"
    and rd: "\<forall>s row name title fmt ts.
                  select_template s name = Some row \<and> t_content row = greeting \<longrightarrow>
                  (\<exists>doc. render s name title ?V fmt ts =
                           (Inr doc, s\<lparr>documents := documents s @ [doc],
                                       documents_seq := documents_seq s + 1\<rparr>)
                         \<and> d_content doc = filled_text parts tail
                         \<and> d_status doc = ''draft'')"
    and pl: "(\<forall>n \<in> set (extract_vars greeting).
                    \<forall>v. map_of ?V n = Some v \<longrightarrow> plain_value v) \<longrightarrow>
                 findall (filled_text parts tail) = []"
    by blast
  from pr direct have ft: "filled_text parts tail = ''Hello Alice, you owe 42''"
    by simp
  from pl hp have "findall (filled_text parts tail) = []"
    by (rule mp)
  then have c7: "findall ''Hello Alice, you owe 42'' = []"
    unfolding ft .
  from src ft have c5: "\<exists>parts tail. greeting = template_text parts tail
         \<and> filled_text parts tail = ''Hello Alice, you owe 42''"
    by blast
  from rd sel obtain doc where
    "render engine_one ''greet'' ''Bill'' ?V ''txt'' ''t1'' =
       (Inr doc, engine_one\<lparr>documents := documents engine_one @ [doc],
                           documents_seq := documents_seq engine_one + 1\<rparr>)"
    "d_content doc = filled_text parts tail" "d_status doc = ''draft''"
    by (metis template.select_convs(3))
  with ft have c6: "\<exists>doc s'. render engine_one ''greet'' ''Bill'' ?V ''txt'' ''t1'' = (Inr doc, s')
         \<and> d_content doc = ''Hello Alice, you owe 42'' \<and> d_status doc = ''draft''"
    by (intro exI conjI) simp_all
  show ?thesis
    by (intro conjI ev m1 m2 p1 p2 direct c5 c7 c6)
qed

section \<open>Template upsert\<close>

lemma find_SomeD: "find P xs = Some x \<Longrightarrow> P x \<and> x \<in> set xs"
  by (induction xs) (auto split: if_splits)

lemma find_map_same:
  assumes "\<And>r. key (upd r) = key r"
  shows "find (\<lambda>r. key r = n) (map (\<lambda>r. if key r = n then upd r else r) rows)
           = map_option upd (find (\<lambda>r. key r = n) rows)"
  using assms by (induction rows) auto

lemma find_map_other:
  assumes "\<And>r. key (upd r) = key r" and "n' \<noteq> n"
  shows "find (\<lambda>r. key r = n') (map (\<lambda>r. if key r = n then upd r else r) rows)
           = find (\<lambda>r. key r = n') rows"
  using assms by (induction rows) auto

lemma find_snoc:
  "find P (xs @ [x]) = (case find P xs of Some y \<Rightarrow> Some y | None \<Rightarrow> if P x then Some x else None)"
  by (induction xs) auto

text \<open>
  C4. The first upsert of a name stores a template at version 1 whose creation and
  update times are the time of the call. An upsert of a name that is stored overwrites
  the content, the variable list and the category of its row, sets the update time and
  adds one to the version; the creation time and the id stay. The rows of other names
  are untouched, so another name still starts at version 1. The variable list stored
  is the JSON text of what the extractor returns on the new content, and the version
  returned is the version stored.
\<close>

theorem create_template_versions:
  "(select_template s name = None \<longrightarrow>
      select_template (snd (create_template s name content category ts)) name =
        Some \<lparr>t_id = templates_seq s + 1, t_name = name, t_content = content,
              t_variables = json_dumps_list (extract_vars content), t_category = category,
              t_version = 1, t_created_at = ts, t_updated_at = ts\<rparr>)
   \<and> (\<forall>old. select_template s name = Some old \<longrightarrow>
         select_template (snd (create_template s name content category ts)) name =
           Some (old\<lparr>t_content := content,
                     t_variables := json_dumps_list (extract_vars content),
                     t_category := category, t_version := t_version old + 1,
                     t_updated_at := ts\<rparr>))
   \<and> (\<forall>other. other \<noteq> name \<longrightarrow>
         select_template (snd (create_template s name content category ts)) other =
           select_template s other)
   \<and> t_version (fst (create_template s name content category ts)) =
       (case select_template s name of None \<Rightarrow> 1 | Some old \<Rightarrow> t_version old + 1)"
proof -
  let ?vars = "json_dumps_list (extract_vars content)"
  have a: "select_template s name = None \<longrightarrow>
      select_template (snd (create_template s name content category ts)) name =
        Some \<lparr>t_id = templates_seq s + 1, t_name = name, t_content = content,
              t_variables = ?vars, t_category = category,
              t_version = 1, t_created_at = ts, t_updated_at = ts\<rparr>"
    by (auto simp: create_template_def select_template_def Let_def find_snoc)
  have b: "\<forall>old. select_template s name = Some old \<longrightarrow>
         select_template (snd (create_template s name content category ts)) name =
           Some (old\<lparr>t_content := content, t_variables := ?vars,
                     t_category := category, t_version := t_version old + 1,
                     t_updated_at := ts\<rparr>)"
  proof (intro allI impI)
    fix old
    assume old: "select_template s name = Some old"
    let ?upd = "\<lambda>r. r\<lparr>t_content := content, t_variables := ?vars, t_category := category,
                         t_version := t_version old + 1, t_updated_at := ts\<rparr>"
    have "find (\<lambda>r. t_name r = name) (map (\<lambda>r. if t_name r = name then ?upd r else r) (templates s))
            = map_option ?upd (find (\<lambda>r. t_name r = name) (templates s))"
      by (rule find_map_same) simp
    with old show "select_template (snd (create_template s name content category ts)) name = Some (?upd old)"
      by (simp add: create_template_def select_template_def Let_def)
  qed
  have c: "\<forall>other. other \<noteq> name \<longrightarrow>
         select_template (snd (create_template s name content category ts)) other =
           select_template s other"
  proof (intro allI impI)
    fix other :: string
    assume ne: "other \<noteq> name"
    show "select_template (snd (create_template s name content category ts)) other =
           select_template s other"
    proof (cases "select_template s name")
      case None
      with ne show ?thesis
        by (auto simp: create_template_def select_template_def Let_def find_snoc split: option.splits)
    next
      case (Some old)
      let ?upd = "\<lambda>r. r\<lparr>t_content := content, t_variables := ?vars, t_category := category,
                           t_version := t_version old + 1, t_updated_at := ts\<rparr>"
      have "find (\<lambda>r. t_name r = other) (map (\<lambda>r. if t_name r = name then ?upd r else r) (templates s))
              = find (\<lambda>r. t_name r = other) (templates s)"
        by (rule find_map_other) (simp_all add: ne)
      with Some show ?thesis
        by (simp add: create_template_def select_template_def Let_def)
    qed
  qed
  have d: "t_version (fst (create_template s name content category ts)) =
       (case select_template s name of None \<Rightarrow> 1 | Some old \<Rightarrow> t_version old + 1)"
    by (simp add: create_template_def Let_def split: option.splits)
  show ?thesis
    by (intro conjI a b c d)
qed

theorem create_template_versions_witness:
  "select_template (get_db ''/home/u'') ''x'' = None
   \<and> select_template (run (get_db ''/home/u'') [CreateTemplate ''x'' ''a {{p}}'' ''general'' ''t1'']) ''x''
       = Some \<lparr>t_id = 1, t_name = ''x'', t_content = ''a {{p}}'',
               t_variables = json_dumps_list [''p''], t_category = ''general'',
               t_version = 1, t_created_at = ''t1'', t_updated_at = ''t1''\<rparr>
   \<and> select_template (run (get_db ''/home/u'')
         [CreateTemplate ''x'' ''a {{p}}'' ''general'' ''t1'',
          CreateTemplate ''x'' ''b {{q}}'' ''letters'' ''t2'']) ''x''
       = Some \<lparr>t_id = 1, t_name = ''x'', t_content = ''b {{q}}'',
               t_variables = json_dumps_list [''q''], t_category = ''letters'',
               t_version = 2, t_created_at = ''t1'', t_updated_at = ''t2''\<rparr>
   \<and> select_template (run (get_db ''/home/u'')
         [CreateTemplate ''x'' ''a {{p}}'' ''general'' ''t1'',
          CreateTemplate ''x'' ''b {{q}}'' ''letters'' ''t2'',
          CreateTemplate ''y'' ''c'' ''general'' ''t3'']) ''y''
       = Some \<lparr>t_id = 2, t_name = ''y'', t_content = ''c'',
               t_variables = json_dumps_list [], t_category = ''general'',
               t_version = 1, t_created_at = ''t3'', t_updated_at = ''t3''\<rparr>"
proof -
  let ?s0 = "get_db ''/home/u''"
  let ?s1 = "snd (create_template ?s0 ''x'' ''a {{p}}'' ''general'' ''t1'')"
  let ?s2 = "snd (create_template ?s1 ''x'' ''b {{q}}'' ''letters'' ''t2'')"
  let ?s3 = "snd (create_template ?s2 ''y'' ''c'' ''general'' ''t3'')"
  have e1: "extract_vars ''a {{p}}'' = [''p'']"
    by (simp add: extract_vars_def findall_def strip_def is_space_def code_point_def)
  have e2: "extract_vars ''b {{q}}'' = [''q'']"
    by (simp add: extract_vars_def findall_def strip_def is_space_def code_point_def)
  have e3: "extract_vars ''c'' = []"
    by (simp add: extract_vars_def findall_def)
  have h0: "select_template ?s0 ''x'' = None"
    by (simp add: select_template_def get_db_def)
  have h0y: "select_template ?s0 ''y'' = None"
    by (simp add: select_template_def get_db_def)
  have ne: "''y'' \<noteq> ''x''" by simp
  have q0: "templates_seq ?s0 = 0" by (simp add: get_db_def)
  note t1 = create_template_versions [of ?s0 "''x''" "''a {{p}}''" "''general''" "''t1''"]
  note t2 = create_template_versions [of ?s1 "''x''" "''b {{q}}''" "''letters''" "''t2''"]
  note t3 = create_template_versions [of ?s2 "''y''" "''c''" "''general''" "''t3''"]
  have r1: "select_template ?s1 ''x''
       = Some \<lparr>t_id = 1, t_name = ''x'', t_content = ''a {{p}}'',
               t_variables = json_dumps_list [''p''], t_category = ''general'',
               t_version = 1, t_created_at = ''t1'', t_updated_at = ''t1''\<rparr>"
    using t1 [THEN conjunct1, THEN mp, OF h0] by (simp only: q0 e1) simp
  have r2: "select_template ?s2 ''x''
       = Some \<lparr>t_id = 1, t_name = ''x'', t_content = ''b {{q}}'',
               t_variables = json_dumps_list [''q''], t_category = ''letters'',
               t_version = 2, t_created_at = ''t1'', t_updated_at = ''t2''\<rparr>"
    using t2 [THEN conjunct2, THEN conjunct1, THEN spec, THEN mp, OF r1] by (simp only: e2) simp
  have y1: "select_template ?s1 ''y'' = None"
    using t1 [THEN conjunct2, THEN conjunct2, THEN conjunct1, THEN spec, THEN mp, OF ne] h0y
    by simp
  have y2: "select_template ?s2 ''y'' = None"
    using t2 [THEN conjunct2, THEN conjunct2, THEN conjunct1, THEN spec, THEN mp, OF ne] y1
    by simp
  have q2: "templates_seq ?s2 = 1"
    by (simp add: create_template_def select_template_def get_db_def Let_def)
  have r3: "select_template ?s3 ''y''
       = Some \<lparr>t_id = 2, t_name = ''y'', t_content = ''c'',
               t_variables = json_dumps_list [], t_category = ''general'',
               t_version = 1, t_created_at = ''t3'', t_updated_at = ''t3''\<rparr>"
    using t3 [THEN conjunct1, THEN mp, OF y2] by (simp only: q2 e3) simp
  show ?thesis
    unfolding run_def foldl.simps perform.simps
    by (intro conjI h0 r1 r2 r3)
qed

text \<open>
  What an upsert returns against what it stores: the stored row when the name was
  absent; when the name was stored, the stored row but for the time of creation.
\<close>

lemma create_template_returned:
  "(select_template s name = None \<longrightarrow>
      select_template (snd (create_template s name content category ts)) name
        = Some (fst (create_template s name content category ts)))
   \<and> (\<forall>old. select_template s name = Some old \<longrightarrow>
         select_template (snd (create_template s name content category ts)) name
           = Some ((fst (create_template s name content category ts))
                     \<lparr>t_created_at := t_created_at old\<rparr>))"
proof -
  let ?vars = "json_dumps_list (extract_vars content)"
  have a: "select_template s name = None \<longrightarrow>
      select_template (snd (create_template s name content category ts)) name
        = Some (fst (create_template s name content category ts))"
    by (auto simp: create_template_def select_template_def Let_def find_snoc)
  have b: "\<forall>old. select_template s name = Some old \<longrightarrow>
         select_template (snd (create_template s name content category ts)) name
           = Some ((fst (create_template s name content category ts))
                     \<lparr>t_created_at := t_created_at old\<rparr>)"
  proof (intro allI impI)
    fix old
    assume old: "select_template s name = Some old"
    then have nm: "t_name old = name"
      by (auto simp: select_template_def dest: find_SomeD)
    let ?upd = "\<lambda>r. r\<lparr>t_content := content, t_variables := ?vars, t_category := category,
                         t_version := t_version old + 1, t_updated_at := ts\<rparr>"
    have "find (\<lambda>r. t_name r = name) (map (\<lambda>r. if t_name r = name then ?upd r else r) (templates s))
            = map_option ?upd (find (\<lambda>r. t_name r = name) (templates s))"
      by (rule find_map_same) simp
    with old nm show "select_template (snd (create_template s name content category ts)) name
           = Some ((fst (create_template s name content category ts))
                     \<lparr>t_created_at := t_created_at old\<rparr>)"
      by (simp add: create_template_def select_template_def Let_def)
  qed
  show ?thesis
    by (intro conjI a b)
qed

text \<open>
  C9. The template that an upsert returns is not the stored row on the update branch:
  the row keeps the time of its creation, and the returned template carries the time
  of the call in both time fields. Here the template \<^verbatim>\<open>greet\<close>, created at \<^verbatim>\<open>t0\<close>, is
  upserted again at \<^verbatim>\<open>t9\<close>.
\<close>

theorem create_template_update_reports_new_created_at:
  "t_created_at (fst (create_template engine_one ''greet'' ''Bye'' ''general'' ''t9'')) = ''t9''
   \<and> map_option t_created_at
        (select_template (snd (create_template engine_one ''greet'' ''Bye'' ''general'' ''t9''))
           ''greet'') = Some ''t0''
   \<and> map_option t_version
        (select_template (snd (create_template engine_one ''greet'' ''Bye'' ''general'' ''t9''))
           ''greet'') = Some 2
   \<and> t_version (fst (create_template engine_one ''greet'' ''Bye'' ''general'' ''t9'')) = 2
   \<and> select_template (snd (create_template engine_one ''greet'' ''Bye'' ''general'' ''t9''))
        ''greet''
       \<noteq> Some (fst (create_template engine_one ''greet'' ''Bye'' ''general'' ''t9''))"
  by (simp add: engine_one_def run_def create_template_def select_template_def get_db_def Let_def)

section \<open>Paths\<close>

text \<open>
  Cutting at the slashes: a string without a slash is one piece, and the first piece
  of a string is what stands before its first slash.
\<close>

lemma split_sep_not_Nil: "split_sep x \<noteq> []"
  by (induction x) (auto split: list.splits)

lemma split_sep_no_slash: "CHR ''/'' \<notin> set x \<Longrightarrow> split_sep x = [x]"
  by (induction x) auto

lemma hd_split_sep: "hd (split_sep y) = takeWhile (\<lambda>c. c \<noteq> CHR ''/'') y"
  by (induction y) (auto split: list.splits simp: split_sep_not_Nil)

lemma split_sep_append:
  "CHR ''/'' \<notin> set x \<Longrightarrow> split_sep (x @ y) = (x @ hd (split_sep y)) # tl (split_sep y)"
  using split_sep_not_Nil [of y]
  by (induction x) (auto split: list.splits)

lemma join_snoc: "join sep (xs @ [a]) = (if xs = [] then a else join sep xs @ sep @ a)"
  by (induction sep xs rule: join.induct) auto

lemma utf8_size_append: "utf8_size (a @ b) = utf8_size a + utf8_size b"
  by (simp add: utf8_size_def)

lemma docs_dir_eval: "DOCS_DIR ''/home/u'' = (''/'', [''home'', ''u'', ''.blackroad'', ''documents''])"
  by (simp add: DOCS_DIR_def truediv_def pure_path_def path_root_def path_parts_def)

text \<open>
  The documents directory of two home directories, and a file name with a slash at its
  end: the root directory as home gives one slash in front, and the slash at the end
  is dropped.
\<close>

lemma docs_dir_root: "DOCS_DIR ''/'' = (''/'', [''.blackroad'', ''documents''])"
  by (simp add: DOCS_DIR_def truediv_def pure_path_def path_root_def path_parts_def)

lemma docs_dir_root_str: "str_path (DOCS_DIR ''/'') = ''/.blackroad/documents''"
  by (simp add: docs_dir_root str_path_def)

lemma trailing_slash_dropped:
  "str_path (truediv (DOCS_DIR ''/home/u'') ''A_1.x/'') = ''/home/u/.blackroad/documents/A_1.x''"
  by (simp add: docs_dir_eval str_path_def truediv_def path_root_def path_parts_def)

text \<open>
  A file name begins with the slug and an underscore, so it has no root: the path of
  an export is the documents directory with the parts of the file name behind it.
\<close>

lemma slash_notin_safe_title: "CHR ''/'' \<notin> set (safe_title title)"
  by (auto simp: safe_title_def is_word_def code_point_def)

lemma path_root_file_name: "path_root (safe_title title @ CHR ''_'' # r) = []"
proof (cases "safe_title title")
  case Nil
  then show ?thesis by (simp add: path_root_def)
next
  case (Cons c cs)
  with slash_notin_safe_title [of title] have "c \<noteq> CHR ''/''" by auto
  with Cons show ?thesis by (simp add: path_root_def)
qed

lemma export_path_parts:
  "export_path s row fmt ts_tag =
     (fst (DOCS_DIR (home s)),
      snd (DOCS_DIR (home s)) @ path_parts (export_file_name row fmt ts_tag))"
  using path_root_file_name [of "d_title row" "ts_tag @ ''.'' @ or_else fmt (d_fmt row)"]
  by (simp add: export_path_def export_file_name_def truediv_def)

lemma write_error_export:
  "write_error s (export_path s row fmt ts_tag) =
     (let p = export_path s row fmt ts_tag
      in if CHR 0x00 \<in> set (str_path p) then Some (ValueError ''embedded null byte'')
         else if PATH_MAX \<le> utf8_size (str_path p) then Some (OSError (str_path p))
         else (case path_parts (export_file_name row fmt ts_tag) of
              [] \<Rightarrow> Some (IsADirectoryError (str_path p))
            | name # rest \<Rightarrow>
                if NAME_MAX < utf8_size name then Some (OSError (str_path p))
                else if rest = [] then None
                else if files s (str_path (fst (DOCS_DIR (home s)),
                                           snd (DOCS_DIR (home s)) @ [name])) \<noteq> None
                  then Some (NotADirectoryError (str_path p))
                else Some (FileNotFoundError (str_path p))))"
  by (simp add: write_error_def Let_def export_path_parts)

section \<open>Export\<close>

text \<open>
  The four ways through \<^verbatim>\<open>export_document\<close>: the id is no SQLite integer, no row has
  the id, the write of the file is refused, or the file is written and the record
  inserted. An exception leaves the engine as it was.
\<close>

lemma export_document_overflow:
  assumes "\<not> sqlite_integer doc_id"
  shows "export_document s doc_id fmt ts_tag ts =
           (Inl (OverflowError ''Python int too large to convert to SQLite INTEGER''), s)"
  by (simp add: export_document_def assms)

lemma export_document_absent:
  assumes "sqlite_integer doc_id" and "select_document s doc_id = None"
  shows "export_document s doc_id fmt ts_tag ts =
           (Inl (KeyError (''Document id='' @ str_int doc_id @ '' not found'')), s)"
  by (simp add: export_document_def assms)

lemma export_document_refused:
  assumes "sqlite_integer doc_id" and "select_document s doc_id = Some row"
    and "write_error s (export_path s row fmt ts_tag) = Some exc"
  shows "export_document s doc_id fmt ts_tag ts = (Inl exc, s)"
  using assms(3)
  by (simp add: export_document_def assms(1,2) write_text_def Let_def export_path_def
        export_file_name_def)

lemma export_document_found:
  assumes "sqlite_integer doc_id" and "select_document s doc_id = Some row"
    and "write_error s (export_path s row fmt ts_tag) = None"
  shows "export_document s doc_id fmt ts_tag ts =
     (let export_fmt = or_else fmt (d_fmt row);
          out_path = str_path (export_path s row fmt ts_tag);
          body = wrap_body export_fmt (d_title row) (d_content row);
          rec = \<lparr>e_id = export_records_seq s + 1, e_document_id = doc_id,
                  e_export_path = out_path, e_export_format = export_fmt,
                  e_file_size_bytes = utf8_size body, e_exported_at = ts\<rparr>
      in (Inr rec,
          s\<lparr>files := (files s)(out_path \<mapsto> body),
            export_records := export_records s @ [rec],
            export_records_seq := export_records_seq s + 1,
            documents := map (\<lambda>r. if d_id r = doc_id then r\<lparr>d_status := ''exported''\<rparr> else r)
                           (documents s)\<rparr>))"
  using assms(3)
  by (simp add: export_document_def assms(1,2) write_text_def st_size_def Let_def
        export_path_def export_file_name_def)

lemma export_document_Inl:
  assumes "export_document s doc_id fmt ts_tag ts = (Inl exc, s')"
  shows "s' = s"
proof (cases "sqlite_integer doc_id")
  case False
  with assms show ?thesis by (simp add: export_document_overflow)
next
  case True
  show ?thesis
  proof (cases "select_document s doc_id")
    case None
    with assms True show ?thesis by (simp add: export_document_absent)
  next
    case (Some row)
    show ?thesis
    proof (cases "write_error s (export_path s row fmt ts_tag)")
      case None
      with assms show ?thesis
        by (simp add: export_document_found [OF True Some None] Let_def)
    next
      case (Some e)
      with assms show ?thesis
        by (simp add: export_document_refused [OF True \<open>select_document s doc_id = Some row\<close> Some])
    qed
  qed
qed

lemma export_document_Inr:
  assumes "export_document s doc_id fmt ts_tag ts = (Inr rec, s')"
  shows "\<exists>row. sqlite_integer doc_id \<and> select_document s doc_id = Some row
           \<and> write_error s (export_path s row fmt ts_tag) = None"
proof (cases "sqlite_integer doc_id")
  case False
  with assms show ?thesis by (simp add: export_document_overflow)
next
  case True
  show ?thesis
  proof (cases "select_document s doc_id")
    case None
    with assms True show ?thesis by (simp add: export_document_absent)
  next
    case (Some row)
    show ?thesis
    proof (cases "write_error s (export_path s row fmt ts_tag)")
      case None
      with True Some show ?thesis by simp
    next
      case (Some e)
      with assms show ?thesis
        by (simp add: export_document_refused [OF True \<open>select_document s doc_id = Some row\<close> Some])
    qed
  qed
qed

lemma export_returns_iff:
  assumes "select_document s doc_id = Some row"
  shows "(\<exists>rec s'. export_document s doc_id fmt ts_tag ts = (Inr rec, s'))
           \<longleftrightarrow> sqlite_integer doc_id \<and> write_error s (export_path s row fmt ts_tag) = None"
proof
  assume "\<exists>rec s'. export_document s doc_id fmt ts_tag ts = (Inr rec, s')"
  then obtain rec s' where "export_document s doc_id fmt ts_tag ts = (Inr rec, s')"
    by blast
  from export_document_Inr [OF this] assms
  show "sqlite_integer doc_id \<and> write_error s (export_path s row fmt ts_tag) = None"
    by auto
next
  assume "sqlite_integer doc_id \<and> write_error s (export_path s row fmt ts_tag) = None"
  then show "\<exists>rec s'. export_document s doc_id fmt ts_tag ts = (Inr rec, s')"
    by (simp add: export_document_found [OF _ assms] Let_def)
qed

lemma engine_two_doc: "select_document engine_two 1 = Some invoice"
  by (simp add: engine_two_def run_def create_template_def select_template_def get_db_def
        Let_def render_def private_render_def re_sub_def replace_def strip_def is_space_def
        code_point_def select_document_def invoice_def)

lemma engine_two_docs: "documents engine_two = [invoice]"
  by (simp add: engine_two_def run_def create_template_def select_template_def get_db_def
        Let_def render_def private_render_def re_sub_def replace_def strip_def is_space_def
        code_point_def invoice_def)

lemma engine_two_rest:
  "home engine_two = ''/home/u''" "files engine_two = Map.empty"
  "export_records engine_two = []" "export_records_seq engine_two = 0"
  by (simp_all add: engine_two_def run_def create_template_def select_template_def get_db_def
        Let_def render_def private_render_def re_sub_def replace_def strip_def is_space_def
        code_point_def)

lemma invoice_fields:
  "d_id invoice = 1" "d_title invoice = ''Invoice #1''" "d_content invoice = ''Total: 10''"
  "d_fmt invoice = ''md''" "d_status invoice = ''draft''"
  by (simp_all add: invoice_def)

lemma safe_title_invoice: "safe_title ''Invoice #1'' = ''Invoice__1''"
  by (simp add: safe_title_def is_word_def code_point_def)

lemma sqlite_integer_small: "sqlite_integer 1" "sqlite_integer 2" "sqlite_integer 7"
  by (simp_all add: sqlite_integer_def)

text \<open>
  The exports of the examples: home \<^verbatim>\<open>/home/u\<close>, one of two timestamp tags, and a format
  among \<^verbatim>\<open>md\<close>, \<^verbatim>\<open>txt\<close> and \<^verbatim>\<open>html\<close>. The file name is one part, and the write is
  refused exactly when the name is longer than 255 bytes.
\<close>

lemma example_tags:
  assumes "t \<in> {''20260101_120000'', ''20260101_120001''}"
  shows "CHR ''/'' \<notin> set t" and "CHR 0x00 \<notin> set t" and "utf8_size t = 15"
  using assms by (auto simp: utf8_size_def code_point_def)

lemma nul_notin_safe_title: "CHR 0x00 \<notin> set (safe_title title)"
  by (auto simp: safe_title_def is_word_def code_point_def)

lemma example_path:
  assumes "home s = ''/home/u''" and "CHR ''/'' \<notin> set (or_else fmt (d_fmt row))"
    and "t \<in> {''20260101_120000'', ''20260101_120001''}"
  shows "export_path s row fmt t =
     (''/'', [''home'', ''u'', ''.blackroad'', ''documents'',
              safe_title (d_title row) @ ''_'' @ t @ ''.'' @ or_else fmt (d_fmt row)])"
proof -
  let ?f = "safe_title (d_title row) @ ''_'' @ t @ ''.'' @ or_else fmt (d_fmt row)"
  from assms(2) example_tags(1) [OF assms(3)] slash_notin_safe_title [of "d_title row"]
  have "CHR ''/'' \<notin> set ?f"
    by simp
  from split_sep_no_slash [OF this]
  have "path_parts ?f = [?f]"
    by (simp add: path_parts_def)
  then show ?thesis
    by (simp add: export_path_parts export_file_name_def assms(1) docs_dir_eval)
qed

lemma example_str_path:
  assumes "home s = ''/home/u''" and "CHR ''/'' \<notin> set (or_else fmt (d_fmt row))"
    and "t \<in> {''20260101_120000'', ''20260101_120001''}"
  shows "str_path (export_path s row fmt t) =
     ''/home/u/.blackroad/documents/'' @ safe_title (d_title row) @ ''_'' @ t @ ''.''
       @ or_else fmt (d_fmt row)"
  by (simp add: example_path [OF assms] str_path_def)

lemma example_write_error:
  assumes "home s = ''/home/u''" and "or_else fmt (d_fmt row) \<in> {''md'', ''txt'', ''html''}"
    and "t \<in> {''20260101_120000'', ''20260101_120001''}"
    and "utf8_size (safe_title (d_title row)) \<le> 300"
  shows "write_error s (export_path s row fmt t) =
     (if 255 < utf8_size (safe_title (d_title row)) + 17 + utf8_size (or_else fmt (d_fmt row))
      then Some (OSError (''/home/u/.blackroad/documents/'' @ safe_title (d_title row)
                            @ ''_'' @ t @ ''.'' @ or_else fmt (d_fmt row)))
      else None)"
proof -
  let ?e = "or_else fmt (d_fmt row)"
  let ?g = "safe_title (d_title row)"
  from assms(2) have ns: "CHR ''/'' \<notin> set ?e"
    by auto
  from assms(2) have z: "CHR 0x00 \<notin> set ?e"
    by auto
  from assms(2) have u: "utf8_size ?e \<le> 4"
    by (auto simp: utf8_size_def code_point_def)
  note tg = example_tags [OF assms(3)]
  note path = example_path [OF assms(1) ns assms(3)]
  have p: "snd (export_path s row fmt t) =
             snd (DOCS_DIR (home s)) @ [?g @ ''_'' @ t @ ''.'' @ ?e]"
    "fst (export_path s row fmt t) = fst (DOCS_DIR (home s))"
    by (simp_all add: path assms(1) docs_dir_eval)
  note sp = example_str_path [OF assms(1) ns assms(3)]
  have a: "utf8_size ''/home/u/.blackroad/documents/'' = 29"
    by (simp add: utf8_size_def code_point_def)
  have b: "utf8_size ''_'' = 1" "utf8_size ''.'' = 1"
    by (simp_all add: utf8_size_def code_point_def)
  have c: "utf8_size (''/home/u/.blackroad/documents/'' @ ?g @ ''_'' @ t @ ''.'' @ ?e)
             = 29 + utf8_size ?g + 17 + utf8_size ?e"
    unfolding utf8_size_append a b tg(3) by simp
  have d: "utf8_size (?g @ ''_'' @ t @ ''.'' @ ?e) = utf8_size ?g + 17 + utf8_size ?e"
    unfolding utf8_size_append b tg(3) by simp
  note zz = nul_notin_safe_title [of "d_title row"]
  show ?thesis
    unfolding write_error_def Let_def p sp
    using z zz u c d assms(4) tg(2) by (simp add: NAME_MAX_def PATH_MAX_def)
qed

lemma utf8_size_slugs:
  "utf8_size ''Invoice__1'' = 10" "utf8_size ''A'' = 1"
  "utf8_size (replicate n (CHR ''a'')) = int n"
  by (simp_all add: utf8_size_def code_point_def sum_list_replicate)

lemma safe_title_letters: "safe_title (replicate n (CHR ''a'')) = replicate n (CHR ''a'')"
  by (simp add: safe_title_def is_word_def code_point_def)

lemma safe_title_A: "safe_title ''A'' = ''A''"
  by (simp add: safe_title_def is_word_def code_point_def)

lemma invoice_str_path:
  assumes "home s = ''/home/u''" and "d_title row = ''Invoice #1''"
    and "CHR ''/'' \<notin> set (or_else fmt (d_fmt row))"
    and "t \<in> {''20260101_120000'', ''20260101_120001''}"
  shows "str_path (export_path s row fmt t) =
     ''/home/u/.blackroad/documents/Invoice__1_'' @ t @ ''.'' @ or_else fmt (d_fmt row)"
  by (simp add: example_str_path [OF assms(1,3,4)] assms(2) safe_title_invoice)

lemma invoice_accepted:
  assumes "home s = ''/home/u''" and "d_title row = ''Invoice #1''"
    and "or_else fmt (d_fmt row) \<in> {''md'', ''txt'', ''html''}"
    and "t \<in> {''20260101_120000'', ''20260101_120001''}"
  shows "write_error s (export_path s row fmt t) = None"
proof -
  have n: "utf8_size (safe_title (d_title row)) \<le> 300"
    by (simp add: assms(2) safe_title_invoice utf8_size_slugs)
  from assms(3) have u: "utf8_size (or_else fmt (d_fmt row)) \<le> 4"
    by (auto simp: utf8_size_def code_point_def)
  show ?thesis
    unfolding example_write_error [OF assms(1,3,4) n]
    using u by (simp add: assms(2) safe_title_invoice utf8_size_slugs)
qed

lemma engine_four_docs: "documents engine_four = [note_235, note_236]"
  by (simp add: engine_four_def run_def create_template_def select_template_def get_db_def
        Let_def render_def private_render_def re_sub_def replace_def strip_def is_space_def
        code_point_def note_235_def note_236_def)

lemma engine_four_rest:
  "home engine_four = ''/home/u''" "files engine_four = Map.empty"
  "export_records engine_four = []" "export_records_seq engine_four = 0"
  by (simp_all add: engine_four_def run_def create_template_def select_template_def get_db_def
        Let_def render_def private_render_def re_sub_def replace_def strip_def is_space_def
        code_point_def)

lemma note_fields:
  "d_id note_235 = 1" "d_title note_235 = replicate 235 (CHR ''a'')" "d_fmt note_235 = ''txt''"
  "d_content note_235 = ''one''" "d_status note_235 = ''draft''"
  "d_id note_236 = 2" "d_title note_236 = replicate 236 (CHR ''a'')" "d_fmt note_236 = ''txt''"
  "d_content note_236 = ''two''" "d_status note_236 = ''draft''"
  by (simp_all add: note_235_def note_236_def)

lemma engine_four_doc:
  "select_document engine_four 1 = Some note_235" "select_document engine_four 2 = Some note_236"
  by (simp_all add: select_document_def engine_four_docs note_fields)

lemma letters_write_error:
  assumes "home s = ''/home/u''" and "d_title row = replicate n (CHR ''a'')"
    and "or_else fmt (d_fmt row) \<in> {''md'', ''txt'', ''html''}" and "n \<le> 300"
    and "t \<in> {''20260101_120000'', ''20260101_120001''}"
  shows "write_error s (export_path s row fmt t) =
     (if 255 < int n + 17 + utf8_size (or_else fmt (d_fmt row))
      then Some (OSError (''/home/u/.blackroad/documents/'' @ replicate n (CHR ''a'')
                            @ ''_'' @ t @ ''.'' @ or_else fmt (d_fmt row)))
      else None)"
proof -
  have n: "utf8_size (safe_title (d_title row)) \<le> 300"
    using assms(4) by (simp add: assms(2) safe_title_letters utf8_size_slugs)
  show ?thesis
    unfolding example_write_error [OF assms(1,3,5) n]
    by (simp add: assms(2) safe_title_letters utf8_size_slugs)
qed

text \<open>
  C6. An export of a stored document that returns a record has written, at the path of
  the record, the content as it is when the effective format is \<^verbatim>\<open>txt\<close>; a line
  \<^verbatim>\<open># title\<close>, an empty line, the content and a newline when it is \<^verbatim>\<open>md\<close>; and for
  \<^verbatim>\<open>html\<close> a page whose title and \<^verbatim>\<open>h1\<close> are the title and whose \<^verbatim>\<open>pre\<close> block is the
  content, not escaped. The export returns a record exactly when the id is an SQLite
  integer and the write of the file is not refused. The document titled
  \<^verbatim>\<open>Invoice #1\<close> with content \<^verbatim>\<open>Total: 10\<close> is the example.
\<close>

theorem export_wraps_by_format:
  assumes "select_document s doc_id = Some row"
  shows "(\<forall>rec s'. export_document s doc_id fmt ts_tag ts = (Inr rec, s') \<longrightarrow>
            e_export_format rec = or_else fmt (d_fmt row)
            \<and> (e_export_format rec = ''txt'' \<longrightarrow>
                 files s' (e_export_path rec) = Some (d_content row))
            \<and> (e_export_format rec = ''md'' \<longrightarrow>
                 files s' (e_export_path rec) =
                   Some (''# '' @ d_title row @ [newline, newline] @ d_content row @ [newline]))
            \<and> (e_export_format rec = ''html'' \<longrightarrow>
                 files s' (e_export_path rec) =
                   Some (''<!DOCTYPE html><html><head><title>'' @ d_title row
                         @ ''</title></head><body><h1>'' @ d_title row
                         @ ''</h1><pre>'' @ d_content row @ ''</pre></body></html>'')))
         \<and> ((\<exists>rec s'. export_document s doc_id fmt ts_tag ts = (Inr rec, s'))
              \<longleftrightarrow> sqlite_integer doc_id
                  \<and> write_error s (export_path s row fmt ts_tag) = None)"
proof -
  have a: "\<forall>rec s'. export_document s doc_id fmt ts_tag ts = (Inr rec, s') \<longrightarrow>
            e_export_format rec = or_else fmt (d_fmt row)
            \<and> (e_export_format rec = ''txt'' \<longrightarrow>
                 files s' (e_export_path rec) = Some (d_content row))
            \<and> (e_export_format rec = ''md'' \<longrightarrow>
                 files s' (e_export_path rec) =
                   Some (''# '' @ d_title row @ [newline, newline] @ d_content row @ [newline]))
            \<and> (e_export_format rec = ''html'' \<longrightarrow>
                 files s' (e_export_path rec) =
                   Some (''<!DOCTYPE html><html><head><title>'' @ d_title row
                         @ ''</title></head><body><h1>'' @ d_title row
                         @ ''</h1><pre>'' @ d_content row @ ''</pre></body></html>''))"
  proof (intro allI impI)
    fix rec s'
    assume e: "export_document s doc_id fmt ts_tag ts = (Inr rec, s')"
    from export_document_Inr [OF e] assms
    have i: "sqlite_integer doc_id" and w: "write_error s (export_path s row fmt ts_tag) = None"
      by auto
    from e show "e_export_format rec = or_else fmt (d_fmt row)
            \<and> (e_export_format rec = ''txt'' \<longrightarrow>
                 files s' (e_export_path rec) = Some (d_content row))
            \<and> (e_export_format rec = ''md'' \<longrightarrow>
                 files s' (e_export_path rec) =
                   Some (''# '' @ d_title row @ [newline, newline] @ d_content row @ [newline]))
            \<and> (e_export_format rec = ''html'' \<longrightarrow>
                 files s' (e_export_path rec) =
                   Some (''<!DOCTYPE html><html><head><title>'' @ d_title row
                         @ ''</title></head><body><h1>'' @ d_title row
                         @ ''</h1><pre>'' @ d_content row @ ''</pre></body></html>''))"
      by (auto simp: export_document_found [OF i assms w] Let_def wrap_body_def)
  qed
  show ?thesis
    by (intro conjI a export_returns_iff [OF assms])
qed

theorem export_wraps_by_format_witness:
  "select_document engine_two 1 = Some invoice
   \<and> (\<exists>rec s'. export_document engine_two 1 None ''20260101_120000'' ''t2'' = (Inr rec, s')
          \<and> e_export_format rec = ''md''
          \<and> e_export_path rec = ''/home/u/.blackroad/documents/Invoice__1_20260101_120000.md''
          \<and> files s' (e_export_path rec)
              = Some (''# Invoice #1'' @ [newline, newline] @ ''Total: 10'' @ [newline]))
   \<and> (\<exists>rec s'. export_document engine_two 1 (Some ''txt'') ''20260101_120000'' ''t2'' = (Inr rec, s')
          \<and> e_export_format rec = ''txt''
          \<and> files s' (e_export_path rec) = Some ''Total: 10'')
   \<and> (\<exists>rec s'. export_document engine_two 1 (Some ''html'') ''20260101_120000'' ''t2'' = (Inr rec, s')
          \<and> e_export_format rec = ''html''
          \<and> files s' (e_export_path rec)
              = Some (''<!DOCTYPE html><html><head><title>Invoice #1</title></head>''
                      @ ''<body><h1>Invoice #1</h1><pre>Total: 10</pre></body></html>''))"
proof -
  note d = engine_two_doc
  note h = engine_two_rest(1)
  note i = sqlite_integer_small(1)
  have w0: "write_error engine_two (export_path engine_two invoice None ''20260101_120000'') = None"
    by (rule invoice_accepted [OF h invoice_fields(2)]) (simp_all add: or_else_def invoice_fields)
  have w1: "write_error engine_two (export_path engine_two invoice (Some ''txt'') ''20260101_120000'')
              = None"
    by (rule invoice_accepted [OF h invoice_fields(2)]) (simp_all add: or_else_def invoice_fields)
  have w2: "write_error engine_two (export_path engine_two invoice (Some ''html'') ''20260101_120000'')
              = None"
    by (rule invoice_accepted [OF h invoice_fields(2)]) (simp_all add: or_else_def invoice_fields)
  note t0 = export_wraps_by_format [OF d, of None "''20260101_120000''" "''t2''"]
  note t1 = export_wraps_by_format [OF d, of "Some ''txt''" "''20260101_120000''" "''t2''"]
  note t2 = export_wraps_by_format [OF d, of "Some ''html''" "''20260101_120000''" "''t2''"]
  have p: "\<exists>rec s'. export_document engine_two 1 None ''20260101_120000'' ''t2'' = (Inr rec, s')
          \<and> e_export_format rec = ''md''
          \<and> e_export_path rec = ''/home/u/.blackroad/documents/Invoice__1_20260101_120000.md''
          \<and> files s' (e_export_path rec)
              = Some (''# Invoice #1'' @ [newline, newline] @ ''Total: 10'' @ [newline])"
  proof -
    from t0 [THEN conjunct2, THEN iffD2, OF conjI, OF i w0]
    obtain rec s' where
      e: "export_document engine_two 1 None ''20260101_120000'' ''t2'' = (Inr rec, s')"
      by blast
    note x = t0 [THEN conjunct1, THEN spec, THEN spec, THEN mp, OF e]
    note f = x [THEN conjunct1]
    note m = x [THEN conjunct2, THEN conjunct2, THEN conjunct1]
    from f have f': "e_export_format rec = ''md''"
      by (simp add: or_else_def invoice_fields)
    from m f' have c: "files s' (e_export_path rec)
              = Some (''# Invoice #1'' @ [newline, newline] @ ''Total: 10'' @ [newline])"
      by (simp add: invoice_fields)
    have sp: "str_path (export_path engine_two invoice None ''20260101_120000'')
                = ''/home/u/.blackroad/documents/Invoice__1_20260101_120000.md''"
      using invoice_str_path [OF h invoice_fields(2), of None "''20260101_120000''"]
      by (simp add: or_else_def invoice_fields)
    from e [unfolded export_document_found [OF i d w0] Let_def]
    have "e_export_path rec = str_path (export_path engine_two invoice None ''20260101_120000'')"
      by auto
    then have pth: "e_export_path rec
                  = ''/home/u/.blackroad/documents/Invoice__1_20260101_120000.md''"
      by (simp only: sp)
    from e f' pth c show ?thesis
      by (intro exI [of _ rec] exI [of _ s'] conjI)
  qed
  have q: "\<exists>rec s'. export_document engine_two 1 (Some ''txt'') ''20260101_120000'' ''t2'' = (Inr rec, s')
          \<and> e_export_format rec = ''txt''
          \<and> files s' (e_export_path rec) = Some ''Total: 10''"
  proof -
    from t1 [THEN conjunct2, THEN iffD2, OF conjI, OF i w1]
    obtain rec s' where
      e: "export_document engine_two 1 (Some ''txt'') ''20260101_120000'' ''t2'' = (Inr rec, s')"
      by blast
    note x = t1 [THEN conjunct1, THEN spec, THEN spec, THEN mp, OF e]
    note f = x [THEN conjunct1]
    note m = x [THEN conjunct2, THEN conjunct1]
    from f have f': "e_export_format rec = ''txt''"
      by (simp add: or_else_def)
    from m f' have c: "files s' (e_export_path rec) = Some ''Total: 10''"
      by (simp add: invoice_fields)
    from e f' c show ?thesis
      by (intro exI [of _ rec] exI [of _ s'] conjI)
  qed
  have r: "\<exists>rec s'. export_document engine_two 1 (Some ''html'') ''20260101_120000'' ''t2'' = (Inr rec, s')
          \<and> e_export_format rec = ''html''
          \<and> files s' (e_export_path rec)
              = Some (''<!DOCTYPE html><html><head><title>Invoice #1</title></head>''
                      @ ''<body><h1>Invoice #1</h1><pre>Total: 10</pre></body></html>'')"
  proof -
    from t2 [THEN conjunct2, THEN iffD2, OF conjI, OF i w2]
    obtain rec s' where
      e: "export_document engine_two 1 (Some ''html'') ''20260101_120000'' ''t2'' = (Inr rec, s')"
      by blast
    note x = t2 [THEN conjunct1, THEN spec, THEN spec, THEN mp, OF e]
    note f = x [THEN conjunct1]
    note m = x [THEN conjunct2, THEN conjunct2, THEN conjunct2]
    from f have f': "e_export_format rec = ''html''"
      by (simp add: or_else_def)
    from m f' have c: "files s' (e_export_path rec)
              = Some (''<!DOCTYPE html><html><head><title>Invoice #1</title></head>''
                      @ ''<body><h1>Invoice #1</h1><pre>Total: 10</pre></body></html>'')"
      by (simp add: invoice_fields)
    from e f' c show ?thesis
      by (intro exI [of _ rec] exI [of _ s'] conjI)
  qed
  show ?thesis
    by (intro conjI d p q r)
qed

text \<open>
  C10. An export with the empty string as format does what an export with no format
  does: \<^verbatim>\<open>or\<close> takes the stored format for both, so a record returned for a stored
  document carries the stored format, and a record is returned exactly when the id is
  an SQLite integer and the write of the file named with the stored format is not
  refused.
\<close>

theorem export_empty_format_uses_stored:
  "export_document s doc_id (Some []) ts_tag ts = export_document s doc_id None ts_tag ts
   \<and> or_else (Some []) stored = stored
   \<and> or_else None stored = stored
   \<and> (\<forall>row rec s'. select_document s doc_id = Some row
          \<and> export_document s doc_id (Some []) ts_tag ts = (Inr rec, s') \<longrightarrow>
            e_export_format rec = d_fmt row)
   \<and> (\<forall>row. select_document s doc_id = Some row \<longrightarrow>
         ((\<exists>rec s'. export_document s doc_id (Some []) ts_tag ts = (Inr rec, s'))
            \<longleftrightarrow> sqlite_integer doc_id
                \<and> write_error s (export_path s row None ts_tag) = None))"
proof -
  have o: "or_else (Some []) x = or_else None x" for x
    by (simp add: or_else_def)
  have a: "export_document s doc_id (Some []) ts_tag ts = export_document s doc_id None ts_tag ts"
    unfolding export_document_def o by (rule refl)
  have p: "export_path s row (Some []) ts_tag = export_path s row None ts_tag" for row
    by (simp add: export_path_def export_file_name_def or_else_def)
  have b: "\<forall>row rec s'. select_document s doc_id = Some row
          \<and> export_document s doc_id (Some []) ts_tag ts = (Inr rec, s') \<longrightarrow>
            e_export_format rec = d_fmt row"
  proof (intro allI impI, elim conjE)
    fix row rec s'
    assume r: "select_document s doc_id = Some row"
      and e: "export_document s doc_id (Some []) ts_tag ts = (Inr rec, s')"
    from export_document_Inr [OF e] r
    have i: "sqlite_integer doc_id"
      and w: "write_error s (export_path s row (Some []) ts_tag) = None"
      by auto
    from e show "e_export_format rec = d_fmt row"
      by (auto simp: export_document_found [OF i r w] Let_def or_else_def)
  qed
  have c: "\<forall>row. select_document s doc_id = Some row \<longrightarrow>
         ((\<exists>rec s'. export_document s doc_id (Some []) ts_tag ts = (Inr rec, s'))
            \<longleftrightarrow> sqlite_integer doc_id
                \<and> write_error s (export_path s row None ts_tag) = None)"
    using export_returns_iff [of s doc_id _ "Some []" ts_tag ts] by (simp add: p)
  show ?thesis
    by (intro conjI a b c) (simp_all add: or_else_def)
qed

theorem export_empty_format_uses_stored_witness:
  "select_document engine_two 1 = Some invoice
   \<and> (\<exists>rec s'. export_document engine_two 1 (Some []) ''20260101_120000'' ''t2'' = (Inr rec, s')
         \<and> e_export_format rec = ''md'')
   \<and> export_document engine_two 1 (Some []) ''20260101_120000'' ''t2''
       = export_document engine_two 1 None ''20260101_120000'' ''t2''"
proof -
  note t = export_empty_format_uses_stored [of engine_two 1 "''20260101_120000''" "''t2''" "''md''"]
  have w0: "write_error engine_two (export_path engine_two invoice None ''20260101_120000'') = None"
    by (rule invoice_accepted [OF engine_two_rest(1) invoice_fields(2)])
      (simp_all add: or_else_def invoice_fields)
  from t [THEN conjunct2, THEN conjunct2, THEN conjunct2, THEN conjunct2, THEN spec, THEN mp,
          OF engine_two_doc, THEN iffD2, OF conjI, OF sqlite_integer_small(1) w0]
  obtain rec s' where
    e: "export_document engine_two 1 (Some []) ''20260101_120000'' ''t2'' = (Inr rec, s')"
    by blast
  from t [THEN conjunct2, THEN conjunct2, THEN conjunct2, THEN conjunct1, THEN spec, THEN spec,
          THEN spec, THEN mp, OF conjI, OF engine_two_doc e]
  have f: "e_export_format rec = ''md''"
    by (simp add: invoice_fields)
  from e f have b: "\<exists>rec s'. export_document engine_two 1 (Some []) ''20260101_120000'' ''t2''
                       = (Inr rec, s') \<and> e_export_format rec = ''md''"
    by blast
  show ?thesis
    by (intro conjI engine_two_doc b t [THEN conjunct1])
qed

text \<open>
  C7 as stated fails: an export can fail although the document is stored. The file
  name of the document whose title has 236 letters has 256 bytes, and the write
  raises \<^verbatim>\<open>OSError\<close>; the format \<^verbatim>\<open>x/y\<close> names a file in a directory that does not
  exist, and the write raises \<^verbatim>\<open>FileNotFoundError\<close>.
\<close>

theorem export_of_stored_document_fails:
  "select_document engine_four 2 = Some note_236
   \<and> export_document engine_four 2 None ''20260101_120000'' ''t3''
       = (Inl (OSError (''/home/u/.blackroad/documents/'' @ replicate 236 (CHR ''a'')
                          @ ''_20260101_120000.txt'')), engine_four)
   \<and> select_document engine_two 1 = Some invoice
   \<and> export_document engine_two 1 (Some ''x/y'') ''20260101_120000'' ''t2''
       = (Inl (FileNotFoundError
                 ''/home/u/.blackroad/documents/Invoice__1_20260101_120000.x/y''), engine_two)"
proof -
  have w: "write_error engine_four (export_path engine_four note_236 None ''20260101_120000'')
             = Some (OSError (''/home/u/.blackroad/documents/'' @ replicate 236 (CHR ''a'')
                          @ ''_20260101_120000.txt''))"
    using letters_write_error [OF engine_four_rest(1) note_fields(7), of None "''20260101_120000''"]
    by (simp add: or_else_def note_fields utf8_size_def code_point_def)
  have a: "export_document engine_four 2 None ''20260101_120000'' ''t3''
       = (Inl (OSError (''/home/u/.blackroad/documents/'' @ replicate 236 (CHR ''a'')
                          @ ''_20260101_120000.txt'')), engine_four)"
    by (rule export_document_refused [OF sqlite_integer_small(2) engine_four_doc(2) w])
  have p: "path_parts ''Invoice__1_20260101_120000.x/y'' = [''Invoice__1_20260101_120000.x'', ''y'']"
    by (simp add: path_parts_def)
  have ep: "export_path engine_two invoice (Some ''x/y'') ''20260101_120000'' =
     (''/'', [''home'', ''u'', ''.blackroad'', ''documents'', ''Invoice__1_20260101_120000.x'', ''y''])"
    using p
    by (simp add: export_path_parts export_file_name_def engine_two_rest docs_dir_eval
          safe_title_invoice invoice_fields or_else_def)
  have v: "write_error engine_two (export_path engine_two invoice (Some ''x/y'') ''20260101_120000'')
             = Some (FileNotFoundError
                 ''/home/u/.blackroad/documents/Invoice__1_20260101_120000.x/y'')"
    unfolding ep
    by (simp add: write_error_def Let_def engine_two_rest docs_dir_eval str_path_def
          utf8_size_def code_point_def NAME_MAX_def PATH_MAX_def)
  have b: "export_document engine_two 1 (Some ''x/y'') ''20260101_120000'' ''t2''
       = (Inl (FileNotFoundError
                 ''/home/u/.blackroad/documents/Invoice__1_20260101_120000.x/y''), engine_two)"
    by (rule export_document_refused [OF sqlite_integer_small(1) engine_two_doc v])
  show ?thesis
    by (intro conjI engine_four_doc(2) a engine_two_doc b)
qed

text \<open>
  C7, amended. An export raises \<^verbatim>\<open>OverflowError\<close> when the id is no SQLite integer,
  the not-found \<^verbatim>\<open>KeyError\<close> when the id is one and no document has it, and the
  exception of the write when the write of the file of a stored document is refused;
  otherwise it returns a record. Whenever it raises, the engine is returned as it was:
  no file written, no row added or changed. So a record is inserted only when the
  write was not refused. When a record is returned, the file at its path has been
  written, the record is the one row added to the export records, and its size is the
  size in bytes of that file.
\<close>

theorem export_fails_when_absent_or_refused:
  "(\<not> sqlite_integer doc_id \<longrightarrow>
      export_document s doc_id fmt ts_tag ts =
        (Inl (OverflowError ''Python int too large to convert to SQLite INTEGER''), s))
   \<and> (sqlite_integer doc_id \<and> select_document s doc_id = None \<longrightarrow>
        export_document s doc_id fmt ts_tag ts =
          (Inl (KeyError (''Document id='' @ str_int doc_id @ '' not found'')), s))
   \<and> (\<forall>row exc. sqlite_integer doc_id \<and> select_document s doc_id = Some row
          \<and> write_error s (export_path s row fmt ts_tag) = Some exc \<longrightarrow>
            export_document s doc_id fmt ts_tag ts = (Inl exc, s))
   \<and> (\<forall>row. sqlite_integer doc_id \<and> select_document s doc_id = Some row
          \<and> write_error s (export_path s row fmt ts_tag) = None \<longrightarrow>
            (\<exists>rec s'. export_document s doc_id fmt ts_tag ts = (Inr rec, s')))
   \<and> (\<forall>exc s'. export_document s doc_id fmt ts_tag ts = (Inl exc, s') \<longrightarrow> s' = s)
   \<and> (\<forall>rec s'. export_document s doc_id fmt ts_tag ts = (Inr rec, s') \<longrightarrow>
        (\<exists>row. select_document s doc_id = Some row
            \<and> write_error s (export_path s row fmt ts_tag) = None
            \<and> e_export_path rec = str_path (export_path s row fmt ts_tag)
            \<and> st_size s' (export_path s row fmt ts_tag) = Inr (e_file_size_bytes rec))
        \<and> (\<exists>body. files s' = (files s)(e_export_path rec \<mapsto> body)
                \<and> e_file_size_bytes rec = utf8_size body)
        \<and> export_records s' = export_records s @ [rec]
        \<and> e_document_id rec = doc_id)"
proof -
  have a: "\<not> sqlite_integer doc_id \<longrightarrow>
      export_document s doc_id fmt ts_tag ts =
        (Inl (OverflowError ''Python int too large to convert to SQLite INTEGER''), s)"
    by (simp add: export_document_overflow)
  have b: "sqlite_integer doc_id \<and> select_document s doc_id = None \<longrightarrow>
        export_document s doc_id fmt ts_tag ts =
          (Inl (KeyError (''Document id='' @ str_int doc_id @ '' not found'')), s)"
    by (simp add: export_document_absent)
  have c: "\<forall>row exc. sqlite_integer doc_id \<and> select_document s doc_id = Some row
          \<and> write_error s (export_path s row fmt ts_tag) = Some exc \<longrightarrow>
            export_document s doc_id fmt ts_tag ts = (Inl exc, s)"
  proof (intro allI impI, elim conjE)
    fix row exc
    assume "sqlite_integer doc_id" and "select_document s doc_id = Some row"
      and "write_error s (export_path s row fmt ts_tag) = Some exc"
    then show "export_document s doc_id fmt ts_tag ts = (Inl exc, s)"
      by (rule export_document_refused)
  qed
  have d: "\<forall>row. sqlite_integer doc_id \<and> select_document s doc_id = Some row
          \<and> write_error s (export_path s row fmt ts_tag) = None \<longrightarrow>
            (\<exists>rec s'. export_document s doc_id fmt ts_tag ts = (Inr rec, s'))"
  proof (intro allI impI, elim conjE)
    fix row
    assume i: "sqlite_integer doc_id" and r: "select_document s doc_id = Some row"
      and w: "write_error s (export_path s row fmt ts_tag) = None"
    show "\<exists>rec s'. export_document s doc_id fmt ts_tag ts = (Inr rec, s')"
      unfolding export_document_found [OF i r w] Let_def by blast
  qed
  have e: "\<forall>exc s'. export_document s doc_id fmt ts_tag ts = (Inl exc, s') \<longrightarrow> s' = s"
    by (intro allI impI) (rule export_document_Inl)
  have f: "\<forall>rec s'. export_document s doc_id fmt ts_tag ts = (Inr rec, s') \<longrightarrow>
        (\<exists>row. select_document s doc_id = Some row
            \<and> write_error s (export_path s row fmt ts_tag) = None
            \<and> e_export_path rec = str_path (export_path s row fmt ts_tag)
            \<and> st_size s' (export_path s row fmt ts_tag) = Inr (e_file_size_bytes rec))
        \<and> (\<exists>body. files s' = (files s)(e_export_path rec \<mapsto> body)
                \<and> e_file_size_bytes rec = utf8_size body)
        \<and> export_records s' = export_records s @ [rec]
        \<and> e_document_id rec = doc_id"
  proof (intro allI impI)
    fix rec s'
    assume ex: "export_document s doc_id fmt ts_tag ts = (Inr rec, s')"
    from export_document_Inr [OF ex] obtain row where
      i: "sqlite_integer doc_id" and r: "select_document s doc_id = Some row"
      and w: "write_error s (export_path s row fmt ts_tag) = None"
      by blast
    note found = export_document_found [OF i r w, of ts]
    from ex [unfolded found Let_def]
    have rc: "rec = \<lparr>e_id = export_records_seq s + 1, e_document_id = doc_id,
                  e_export_path = str_path (export_path s row fmt ts_tag),
                  e_export_format = or_else fmt (d_fmt row),
                  e_file_size_bytes =
                    utf8_size (wrap_body (or_else fmt (d_fmt row)) (d_title row) (d_content row)),
                  e_exported_at = ts\<rparr>"
      and fl: "files s' = (files s)(str_path (export_path s row fmt ts_tag) \<mapsto>
                  wrap_body (or_else fmt (d_fmt row)) (d_title row) (d_content row))"
      and er: "export_records s' = export_records s @ [rec]"
      by auto
    from rc have f1: "e_export_path rec = str_path (export_path s row fmt ts_tag)"
      by simp
    from rc fl have f2: "st_size s' (export_path s row fmt ts_tag) = Inr (e_file_size_bytes rec)"
      by (simp add: st_size_def)
    from rc fl have f3: "\<exists>body. files s' = (files s)(e_export_path rec \<mapsto> body)
                \<and> e_file_size_bytes rec = utf8_size body"
      by auto
    note f4 = er
    from rc have f5: "e_document_id rec = doc_id"
      by simp
    from r w f1 f2 have f0: "\<exists>row. select_document s doc_id = Some row
            \<and> write_error s (export_path s row fmt ts_tag) = None
            \<and> e_export_path rec = str_path (export_path s row fmt ts_tag)
            \<and> st_size s' (export_path s row fmt ts_tag) = Inr (e_file_size_bytes rec)"
      by blast
    show "(\<exists>row. select_document s doc_id = Some row
            \<and> write_error s (export_path s row fmt ts_tag) = None
            \<and> e_export_path rec = str_path (export_path s row fmt ts_tag)
            \<and> st_size s' (export_path s row fmt ts_tag) = Inr (e_file_size_bytes rec))
        \<and> (\<exists>body. files s' = (files s)(e_export_path rec \<mapsto> body)
                \<and> e_file_size_bytes rec = utf8_size body)
        \<and> export_records s' = export_records s @ [rec]
        \<and> e_document_id rec = doc_id"
      by (intro conjI f0 f3 f4 f5)
  qed
  show ?thesis
    by (intro conjI a b c d e f)
qed

theorem export_fails_when_absent_or_refused_witness:
  "select_document engine_two 7 = None
   \<and> export_document engine_two 7 None ''20260101_120000'' ''t2''
       = (Inl (KeyError ''Document id=7 not found''), engine_two)
   \<and> export_document engine_two (2 ^ 63) None ''20260101_120000'' ''t2''
       = (Inl (OverflowError ''Python int too large to convert to SQLite INTEGER''), engine_two)
   \<and> select_document engine_four 2 = Some note_236
   \<and> export_document engine_four 2 None ''20260101_120000'' ''t3''
       = (Inl (OSError (''/home/u/.blackroad/documents/'' @ replicate 236 (CHR ''a'')
                          @ ''_20260101_120000.txt'')), engine_four)
   \<and> (\<exists>rec s'. export_document engine_two 1 None ''20260101_120000'' ''t2'' = (Inr rec, s')
         \<and> e_file_size_bytes rec = 24
         \<and> e_export_path rec = ''/home/u/.blackroad/documents/Invoice__1_20260101_120000.md''
         \<and> files s' = [''/home/u/.blackroad/documents/Invoice__1_20260101_120000.md''
                            \<mapsto> ''# Invoice #1'' @ [newline, newline] @ ''Total: 10'' @ [newline]]
         \<and> export_records s' = [rec])"
proof -
  note t7 = export_fails_when_absent_or_refused [of 7 engine_two None "''20260101_120000''" "''t2''"]
  note tb = export_fails_when_absent_or_refused
              [of "2 ^ 63" engine_two None "''20260101_120000''" "''t2''"]
  note t4 = export_fails_when_absent_or_refused [of 2 engine_four None "''20260101_120000''" "''t3''"]
  note t1 = export_fails_when_absent_or_refused [of 1 engine_two None "''20260101_120000''" "''t2''"]
  have n: "select_document engine_two 7 = None"
    by (simp add: select_document_def engine_two_docs invoice_fields)
  have i: "str_int 7 = ''7''"
    by (simp add: str_int_def digits.simps)
  have a: "export_document engine_two 7 None ''20260101_120000'' ''t2''
       = (Inl (KeyError ''Document id=7 not found''), engine_two)"
    using t7 [THEN conjunct2, THEN conjunct1, THEN mp, OF conjI, OF sqlite_integer_small(3) n]
    by (simp add: i)
  have big: "\<not> sqlite_integer (2 ^ 63)"
    by (simp add: sqlite_integer_def)
  note b = tb [THEN conjunct1, THEN mp, OF big]
  have w: "write_error engine_four (export_path engine_four note_236 None ''20260101_120000'')
             = Some (OSError (''/home/u/.blackroad/documents/'' @ replicate 236 (CHR ''a'')
                          @ ''_20260101_120000.txt''))"
    using letters_write_error [OF engine_four_rest(1) note_fields(7), of None "''20260101_120000''"]
    by (simp add: or_else_def note_fields utf8_size_def code_point_def)
  note c = t4 [THEN conjunct2, THEN conjunct2, THEN conjunct1, THEN spec, THEN spec, THEN mp,
               OF conjI, OF sqlite_integer_small(2), OF conjI, OF engine_four_doc(2) w]
  have w0: "write_error engine_two (export_path engine_two invoice None ''20260101_120000'') = None"
    by (rule invoice_accepted [OF engine_two_rest(1) invoice_fields(2)])
      (simp_all add: or_else_def invoice_fields)
  from t1 [THEN conjunct2, THEN conjunct2, THEN conjunct2, THEN conjunct1, THEN spec, THEN mp,
           OF conjI, OF sqlite_integer_small(1), OF conjI, OF engine_two_doc w0]
  obtain rec s' where
    e: "export_document engine_two 1 None ''20260101_120000'' ''t2'' = (Inr rec, s')"
    by blast
  note x = t1 [THEN conjunct2, THEN conjunct2, THEN conjunct2, THEN conjunct2, THEN conjunct2,
               THEN spec, THEN spec, THEN mp, OF e]
  from x [THEN conjunct1] engine_two_doc
  have pth0: "e_export_path rec = str_path (export_path engine_two invoice None ''20260101_120000'')"
    by auto
  have sp: "str_path (export_path engine_two invoice None ''20260101_120000'')
                = ''/home/u/.blackroad/documents/Invoice__1_20260101_120000.md''"
    using invoice_str_path [OF engine_two_rest(1) invoice_fields(2), of None "''20260101_120000''"]
    by (simp add: or_else_def invoice_fields)
  from pth0 have pth: "e_export_path rec
                  = ''/home/u/.blackroad/documents/Invoice__1_20260101_120000.md''"
    by (simp only: sp)
  from x [THEN conjunct2, THEN conjunct2, THEN conjunct1]
  have recs: "export_records s' = [rec]"
    by (simp add: engine_two_rest)
  from e [unfolded export_document_found [OF sqlite_integer_small(1) engine_two_doc w0] Let_def]
  have fl0: "files s' = (files engine_two)(str_path (export_path engine_two invoice None ''20260101_120000'')
                \<mapsto> wrap_body (or_else None (d_fmt invoice)) (d_title invoice) (d_content invoice))"
    by auto
  have wb: "wrap_body (or_else None (d_fmt invoice)) (d_title invoice) (d_content invoice)
              = ''# Invoice #1'' @ [newline, newline] @ ''Total: 10'' @ [newline]"
    by (simp add: or_else_def invoice_fields wrap_body_def)
  from fl0 have fl: "files s' = [''/home/u/.blackroad/documents/Invoice__1_20260101_120000.md''
                            \<mapsto> ''# Invoice #1'' @ [newline, newline] @ ''Total: 10'' @ [newline]]"
    unfolding sp wb engine_two_rest by simp
  from x [THEN conjunct2, THEN conjunct1] obtain body where
    bd: "files s' = (files engine_two)(e_export_path rec \<mapsto> body)"
    and sz: "e_file_size_bytes rec = utf8_size body"
    by blast
  from bd fl have "body = ''# Invoice #1'' @ [newline, newline] @ ''Total: 10'' @ [newline]"
    unfolding pth engine_two_rest by (metis fun_upd_same option.inject)
  with sz have z: "e_file_size_bytes rec = 24"
    by (simp add: utf8_size_def code_point_def newline_def)
  from e z pth fl recs
  have g: "\<exists>rec s'. export_document engine_two 1 None ''20260101_120000'' ''t2'' = (Inr rec, s')
         \<and> e_file_size_bytes rec = 24
         \<and> e_export_path rec = ''/home/u/.blackroad/documents/Invoice__1_20260101_120000.md''
         \<and> files s' = [''/home/u/.blackroad/documents/Invoice__1_20260101_120000.md''
                            \<mapsto> ''# Invoice #1'' @ [newline, newline] @ ''Total: 10'' @ [newline]]
         \<and> export_records s' = [rec]"
    by (intro exI [of _ rec] exI [of _ s'] conjI)
  show ?thesis
    by (intro conjI n a b engine_four_doc(2) c g)
qed

section \<open>Document lifecycle\<close>

lemma export_document_cases:
  obtains (fails) exc where "export_document s doc_id fmt ts_tag ts = (Inl exc, s)"
  | (returns) row where "sqlite_integer doc_id" and "select_document s doc_id = Some row"
      and "write_error s (export_path s row fmt ts_tag) = None"
proof (cases "sqlite_integer doc_id")
  case False
  from export_document_overflow [OF this] show ?thesis by (rule fails)
next
  case True
  show ?thesis
  proof (cases "select_document s doc_id")
    case None
    from export_document_absent [OF True None] show ?thesis by (rule fails)
  next
    case (Some row)
    show ?thesis
    proof (cases "write_error s (export_path s row fmt ts_tag)")
      case None
      from True Some None show ?thesis by (rule returns)
    next
      case (Some exc)
      from export_document_refused [OF True \<open>select_document s doc_id = Some row\<close> Some]
      show ?thesis by (rule fails)
    qed
  qed
qed















section \<open>Export files\<close>

lemma run_Cons: "run s (c # cs) = run (perform s c) cs"
  by (simp add: run_def)

lemma run_append: "run s (xs @ ys) = run (run s xs) ys"
  by (simp add: run_def)

lemma exports_done_append:
  "exports_done s (xs @ ys) = exports_done s xs @ exports_done (run s xs) ys"
  by (induction xs arbitrary: s) (simp_all add: run_def)

lemma tags_append: "tags (xs @ ys) = tags xs @ tags ys"
  by (induction xs rule: tags.induct) simp_all

lemma home_perform: "home (perform s c) = home s"
proof (cases c)
  case (CreateTemplate name content category ts)
  then show ?thesis
    by (simp add: create_template_def Let_def split: option.splits)
next
  case (Render n title vars fmt ts)
  then show ?thesis
    by (auto simp: render_def Let_def split: option.splits sum.splits py_error.splits)
next
  case (Export doc_id fmt ts_tag ts)
  show ?thesis
  proof (cases rule: export_document_cases [of s doc_id fmt ts_tag ts])
    case (fails exc)
    with Export show ?thesis by simp
  next
    case (returns row)
    with Export show ?thesis
      by (simp add: export_document_found [OF returns] Let_def)
  qed
qed

lemma home_run: "home (run s cs) = home s"
  by (induction cs arbitrary: s) (simp_all add: run_def home_perform)

lemma safe_title_no_dot: "CHR ''.'' \<notin> set (safe_title title)"
  by (auto simp: safe_title_def is_word_def code_point_def)

lemma ts_tag_chars:
  assumes "ts_tag_format t" and "c \<in> set t"
  shows "is_digit c \<or> c = CHR ''_''"
proof -
  from assms(1) have len: "length t = 15" and a: "list_all is_digit (take 8 t)"
    and b: "t ! 8 = CHR ''_''" and d: "list_all is_digit (drop 9 t)"
    by (simp_all add: ts_tag_format_def)
  from len have d8: "drop 8 t = t ! 8 # drop 9 t"
    using Cons_nth_drop_Suc [of 8 t] by simp
  have "set (take 8 t @ drop 8 t) = set (take 8 t) \<union> set (drop 8 t)"
    by (rule set_append)
  then have "set t = set (take 8 t) \<union> set (drop 8 t)"
    by simp
  then have "set t = set (take 8 t) \<union> {t ! 8} \<union> set (drop 9 t)"
    unfolding d8 by simp
  with assms(2) have pos: "c \<in> set (take 8 t) \<or> c = t ! 8 \<or> c \<in> set (drop 9 t)"
    by blast
  from a have a': "\<forall>c \<in> set (take 8 t). is_digit c"
    by (simp only: list_all_iff)
  from d have d': "\<forall>c \<in> set (drop 9 t). is_digit c"
    by (simp only: list_all_iff)
  from pos a' b d' show ?thesis
    by blast
qed

lemma ts_tag_no_dot:
  assumes "ts_tag_format t"
  shows "CHR ''.'' \<notin> set t"
proof
  assume "CHR ''.'' \<in> set t"
  from ts_tag_chars [OF assms this] show False
    by (simp add: is_digit_def)
qed

lemma ts_tag_no_slash:
  assumes "ts_tag_format t"
  shows "CHR ''/'' \<notin> set t"
proof
  assume "CHR ''/'' \<in> set t"
  from ts_tag_chars [OF assms this] show False
    by (simp add: is_digit_def)
qed

lemma first_split_unique:
  assumes "x \<notin> set xs" and "x \<notin> set xs'" and "xs @ x # ys = xs' @ x # ys'"
  shows "xs = xs'"
  using assms
proof (induction xs arbitrary: xs')
  case Nil
  then show ?case by (cases xs') auto
next
  case (Cons a xs)
  then show ?case by (cases xs') auto
qed

text \<open>The first part of a file name whose slug and tag have no slash.\<close>

lemma file_name_parts:
  assumes "CHR ''/'' \<notin> set t"
  shows "\<exists>rest. path_parts (safe_title title @ ''_'' @ t @ ''.'' @ f) =
           (safe_title title @ ''_'' @ t @ ''.'' @ takeWhile (\<lambda>c. c \<noteq> CHR ''/'') f) # rest"
proof -
  let ?x = "safe_title title @ ''_'' @ t @ ''.''"
  let ?P = "\<lambda>c. c \<noteq> CHR ''/''"
  from assms slash_notin_safe_title [of title] have "CHR ''/'' \<notin> set ?x"
    by simp
  from split_sep_append [OF this, of f]
  have sp: "split_sep (?x @ f) = (?x @ takeWhile ?P f) # tl (split_sep f)"
    by (simp only: hd_split_sep)
  have "length (?x @ takeWhile ?P f) \<ge> 2"
    by simp
  then have ne: "?x @ takeWhile ?P f \<noteq> []" "?x @ takeWhile ?P f \<noteq> ''.''"
    by auto
  have "path_parts (?x @ f) =
          (?x @ takeWhile ?P f) # filter (\<lambda>x. x \<noteq> [] \<and> x \<noteq> ''.'') (tl (split_sep f))"
    unfolding path_parts_def sp using ne by simp
  then show ?thesis
    by simp
qed

lemma key_path_inj:
  assumes t1: "ts_tag_format t1" and t2: "ts_tag_format t2"
    and eq: "key_path h (safe_title a, t1, f1) = key_path h (safe_title b, t2, f2)"
  shows "(safe_title a, t1, f1) = (safe_title b, t2, f2)"
proof -
  let ?d = "snd (DOCS_DIR h)"
  let ?n1 = "safe_title a @ ''_'' @ t1 @ ''.'' @ f1"
  let ?n2 = "safe_title b @ ''_'' @ t2 @ ''.'' @ f2"
  from eq have "join ''/'' (?d @ [?n1]) = join ''/'' (?d @ [?n2])"
    by (simp add: key_path_def str_path_def)
  then have n: "?n1 = ?n2"
    by (simp add: join_snoc split: if_splits)
  let ?x1 = "safe_title a @ ''_'' @ t1" and ?x2 = "safe_title b @ ''_'' @ t2"
  from n have e: "?x1 @ CHR ''.'' # f1 = ?x2 @ CHR ''.'' # f2"
    by simp
  have n1: "CHR ''.'' \<notin> set ?x1"
    using safe_title_no_dot [of a] ts_tag_no_dot [OF t1] by simp
  have n2: "CHR ''.'' \<notin> set ?x2"
    using safe_title_no_dot [of b] ts_tag_no_dot [OF t2] by simp
  have x: "?x1 = ?x2"
    by (rule first_split_unique [OF n1 n2 e])
  from e have f: "f1 = f2"
    unfolding x by simp
  from t1 t2 have len: "length t1 = length t2"
    by (simp add: ts_tag_format_def)
  from x have x': "(safe_title a @ ''_'') @ t1 = (safe_title b @ ''_'') @ t2"
    by simp
  note both = append_eq_append_conv [OF disjI2, OF len, THEN iffD1, OF x']
  from both have "safe_title a = safe_title b" and "t1 = t2"
    by simp_all
  with f show ?thesis
    by simp
qed

text \<open>
  An export that returns a record has a file name of one part, and its path is the
  path of its slug, tag and format up to the first slash.
\<close>

lemma write_accepted_single:
  assumes "write_error s (export_path s row fmt ts_tag) = None"
  shows "\<exists>name. path_parts (export_file_name row fmt ts_tag) = [name]"
  using assms unfolding write_error_export Let_def
  by (auto split: if_splits list.splits)

lemma accepted_key_path:
  assumes w: "write_error s (export_path s row fmt ts_tag) = None"
    and t: "ts_tag_format ts_tag"
  shows "str_path (export_path s row fmt ts_tag) =
           key_path (home s) (safe_title (d_title row), ts_tag,
                              takeWhile (\<lambda>c. c \<noteq> CHR ''/'') (or_else fmt (d_fmt row)))"
proof -
  from write_accepted_single [OF w] obtain name where
    one: "path_parts (export_file_name row fmt ts_tag) = [name]"
    by blast
  from file_name_parts [OF ts_tag_no_slash [OF t], of "d_title row" "or_else fmt (d_fmt row)"]
  obtain rest where
    "path_parts (export_file_name row fmt ts_tag) =
       (safe_title (d_title row) @ ''_'' @ ts_tag @ ''.''
          @ takeWhile (\<lambda>c. c \<noteq> CHR ''/'') (or_else fmt (d_fmt row))) # rest"
    unfolding export_file_name_def by blast
  with one have "path_parts (export_file_name row fmt ts_tag) =
       [safe_title (d_title row) @ ''_'' @ ts_tag @ ''.''
          @ takeWhile (\<lambda>c. c \<noteq> CHR ''/'') (or_else fmt (d_fmt row))]"
    by simp
  then show ?thesis
    by (simp add: export_path_parts key_path_def)
qed

lemma exported_Export:
  "exported s (Export doc_id fmt ts_tag ts) = [] \<and> exported_key s (Export doc_id fmt ts_tag ts) = []
     \<and> perform s (Export doc_id fmt ts_tag ts) = s
   \<or> (\<exists>row rec s'. select_document s doc_id = Some row
         \<and> write_error s (export_path s row fmt ts_tag) = None
         \<and> export_document s doc_id fmt ts_tag ts = (Inr rec, s')
         \<and> e_export_path rec = str_path (export_path s row fmt ts_tag)
         \<and> files s' = (files s)(e_export_path rec \<mapsto>
               wrap_body (or_else fmt (d_fmt row)) (d_title row) (d_content row))
         \<and> exported s (Export doc_id fmt ts_tag ts) = [rec]
         \<and> exported_key s (Export doc_id fmt ts_tag ts) =
             [(safe_title (d_title row), ts_tag,
               takeWhile (\<lambda>c. c \<noteq> CHR ''/'') (or_else fmt (d_fmt row)))])"
proof (cases rule: export_document_cases [of s doc_id fmt ts_tag ts])
  case (fails exc)
  then have "exported s (Export doc_id fmt ts_tag ts) = []
     \<and> exported_key s (Export doc_id fmt ts_tag ts) = []
     \<and> perform s (Export doc_id fmt ts_tag ts) = s"
    by (simp split: option.splits)
  then show ?thesis
    by (rule disjI1)
next
  case (returns row)
  note found = export_document_found [OF returns, of ts]
  have "\<exists>rec s'. select_document s doc_id = Some row
         \<and> write_error s (export_path s row fmt ts_tag) = None
         \<and> export_document s doc_id fmt ts_tag ts = (Inr rec, s')
         \<and> e_export_path rec = str_path (export_path s row fmt ts_tag)
         \<and> files s' = (files s)(e_export_path rec \<mapsto>
               wrap_body (or_else fmt (d_fmt row)) (d_title row) (d_content row))
         \<and> exported s (Export doc_id fmt ts_tag ts) = [rec]
         \<and> exported_key s (Export doc_id fmt ts_tag ts) =
             [(safe_title (d_title row), ts_tag,
               takeWhile (\<lambda>c. c \<noteq> CHR ''/'') (or_else fmt (d_fmt row)))]"
    unfolding exported.simps exported_key.simps found Let_def
    by (simp add: returns)
  then show ?thesis
    by blast
qed

lemma exported_keys:
  assumes "\<forall>t \<in> set (tags [c]). ts_tag_format t"
  shows "map e_export_path (exported s c) = map (key_path (home s)) (exported_key s c)
         \<and> (\<forall>k \<in> set (exported_key s c).
               \<exists>title t f. k = (safe_title title, t, f) \<and> ts_tag_format t)"
proof (cases c)
  case (CreateTemplate name content category ts)
  then show ?thesis by simp
next
  case (Render n title vars fmt ts)
  then show ?thesis by simp
next
  case (Export doc_id fmt ts_tag ts)
  with assms have wf: "ts_tag_format ts_tag"
    by simp
  from exported_Export [of s doc_id fmt ts_tag ts] show ?thesis
  proof
    assume "exported s (Export doc_id fmt ts_tag ts) = []
       \<and> exported_key s (Export doc_id fmt ts_tag ts) = []
       \<and> perform s (Export doc_id fmt ts_tag ts) = s"
    with Export show ?thesis by simp
  next
    assume "\<exists>row rec s'. select_document s doc_id = Some row
         \<and> write_error s (export_path s row fmt ts_tag) = None
         \<and> export_document s doc_id fmt ts_tag ts = (Inr rec, s')
         \<and> e_export_path rec = str_path (export_path s row fmt ts_tag)
         \<and> files s' = (files s)(e_export_path rec \<mapsto>
               wrap_body (or_else fmt (d_fmt row)) (d_title row) (d_content row))
         \<and> exported s (Export doc_id fmt ts_tag ts) = [rec]
         \<and> exported_key s (Export doc_id fmt ts_tag ts) =
             [(safe_title (d_title row), ts_tag,
               takeWhile (\<lambda>c. c \<noteq> CHR ''/'') (or_else fmt (d_fmt row)))]"
    then obtain row rec s' where
      w: "write_error s (export_path s row fmt ts_tag) = None"
      and p: "e_export_path rec = str_path (export_path s row fmt ts_tag)"
      and x: "exported s (Export doc_id fmt ts_tag ts) = [rec]"
      and k: "exported_key s (Export doc_id fmt ts_tag ts) =
             [(safe_title (d_title row), ts_tag,
               takeWhile (\<lambda>c. c \<noteq> CHR ''/'') (or_else fmt (d_fmt row)))]"
      by blast
    have a: "map e_export_path (exported s c) = map (key_path (home s)) (exported_key s c)"
      unfolding Export x k using p accepted_key_path [OF w wf] by simp
    have b: "\<forall>k \<in> set (exported_key s c).
               \<exists>title t f. k = (safe_title title, t, f) \<and> ts_tag_format t"
      unfolding Export k using wf by auto
    show ?thesis
      by (intro conjI a b)
  qed
qed

lemma file_keys_paths:
  assumes "\<forall>t \<in> set (tags cs). ts_tag_format t"
  shows "map e_export_path (exports_done s cs) = map (key_path (home s)) (file_keys s cs)
         \<and> (\<forall>k \<in> set (file_keys s cs).
               \<exists>title t f. k = (safe_title title, t, f) \<and> ts_tag_format t)"
  using assms
proof (induction cs arbitrary: s)
  case Nil
  show ?case by simp
next
  case (Cons c cs)
  have tg: "tags (c # cs) = tags [c] @ tags cs"
    using tags_append [of "[c]" cs] by simp
  from Cons.prems tg have wf: "\<forall>t \<in> set (tags cs). ts_tag_format t"
    and wf1: "\<forall>t \<in> set (tags [c]). ts_tag_format t"
    by auto
  note one = exported_keys [OF wf1, of s]
  note rest = Cons.IH [OF wf, of "perform s c"]
  have a: "map e_export_path (exports_done s (c # cs))
             = map (key_path (home s)) (file_keys s (c # cs))"
    using one [THEN conjunct1] rest [THEN conjunct1] by (simp add: home_perform)
  have b: "\<forall>k \<in> set (file_keys s (c # cs)).
               \<exists>title t f. k = (safe_title title, t, f) \<and> ts_tag_format t"
    using one [THEN conjunct2] rest [THEN conjunct2] by auto
  show ?case
    by (intro conjI a b)
qed

lemma key_path_inj_on:
  assumes "\<forall>k \<in> K. \<exists>title t f. k = (safe_title title, t, f) \<and> ts_tag_format t"
  shows "inj_on (key_path h) K"
proof (rule inj_onI)
  fix x y
  assume x: "x \<in> K" and y: "y \<in> K" and eq: "key_path h x = key_path h y"
  from assms x obtain a t1 f1 where x': "x = (safe_title a, t1, f1)" and w1: "ts_tag_format t1"
    by blast
  from assms y obtain b t2 f2 where y': "y = (safe_title b, t2, f2)" and w2: "ts_tag_format t2"
    by blast
  from key_path_inj [OF w1 w2 eq [unfolded x' y']] show "x = y"
    unfolding x' y' .
qed

lemma files_perform:
  assumes "p \<notin> e_export_path ` set (exported s c)"
  shows "files (perform s c) p = files s p"
proof (cases c)
  case (CreateTemplate name content category ts)
  then show ?thesis
    by (simp add: create_template_def Let_def split: option.splits)
next
  case (Render n title vars fmt ts)
  then show ?thesis
    by (auto simp: render_def Let_def split: option.splits sum.splits py_error.splits)
next
  case (Export doc_id fmt ts_tag ts)
  from exported_Export [of s doc_id fmt ts_tag ts] show ?thesis
  proof
    assume "exported s (Export doc_id fmt ts_tag ts) = []
       \<and> exported_key s (Export doc_id fmt ts_tag ts) = []
       \<and> perform s (Export doc_id fmt ts_tag ts) = s"
    with Export show ?thesis by simp
  next
    assume "\<exists>row rec s'. select_document s doc_id = Some row
         \<and> write_error s (export_path s row fmt ts_tag) = None
         \<and> export_document s doc_id fmt ts_tag ts = (Inr rec, s')
         \<and> e_export_path rec = str_path (export_path s row fmt ts_tag)
         \<and> files s' = (files s)(e_export_path rec \<mapsto>
               wrap_body (or_else fmt (d_fmt row)) (d_title row) (d_content row))
         \<and> exported s (Export doc_id fmt ts_tag ts) = [rec]
         \<and> exported_key s (Export doc_id fmt ts_tag ts) =
             [(safe_title (d_title row), ts_tag,
               takeWhile (\<lambda>c. c \<noteq> CHR ''/'') (or_else fmt (d_fmt row)))]"
    then obtain row :: document and rec s' where
      e: "export_document s doc_id fmt ts_tag ts = (Inr rec, s')"
      and f: "files s' = (files s)(e_export_path rec \<mapsto>
               wrap_body (or_else fmt (d_fmt row)) (d_title row) (d_content row))"
      and x: "exported s (Export doc_id fmt ts_tag ts) = [rec]"
      by blast
    from assms have "p \<noteq> e_export_path rec"
      unfolding Export x by simp
    with e f show ?thesis
      unfolding Export by simp
  qed
qed

lemma files_run:
  assumes "p \<notin> e_export_path ` set (exports_done s cs)"
  shows "files (run s cs) p = files s p"
  using assms
proof (induction cs arbitrary: s)
  case Nil
  show ?case by (simp add: run_def)
next
  case (Cons c cs)
  from Cons.prems have a: "p \<notin> e_export_path ` set (exported s c)"
    and b: "p \<notin> e_export_path ` set (exports_done (perform s c) cs)"
    by auto
  from Cons.IH [OF b] files_perform [OF a] show ?case
    by (simp add: run_Cons)
qed

lemma example_export:
  assumes h: "home s = ''/home/u''" and i: "sqlite_integer doc_id"
    and r: "select_document s doc_id = Some row"
    and f: "or_else fmt (d_fmt row) \<in> {''md'', ''txt'', ''html''}"
    and t: "t \<in> {''20260101_120000'', ''20260101_120001''}"
    and n: "utf8_size (safe_title (d_title row)) \<le> 200"
  shows "export_document s doc_id fmt t ts =
     (let export_fmt = or_else fmt (d_fmt row);
          out_path = ''/home/u/.blackroad/documents/'' @ safe_title (d_title row) @ ''_'' @ t
                       @ ''.'' @ export_fmt;
          body = wrap_body export_fmt (d_title row) (d_content row);
          rec = \<lparr>e_id = export_records_seq s + 1, e_document_id = doc_id,
                  e_export_path = out_path, e_export_format = export_fmt,
                  e_file_size_bytes = utf8_size body, e_exported_at = ts\<rparr>
      in (Inr rec,
          s\<lparr>files := (files s)(out_path \<mapsto> body),
            export_records := export_records s @ [rec],
            export_records_seq := export_records_seq s + 1,
            documents := map (\<lambda>r. if d_id r = doc_id then r\<lparr>d_status := ''exported''\<rparr> else r)
                           (documents s)\<rparr>))"
proof -
  from f have ns: "CHR ''/'' \<notin> set (or_else fmt (d_fmt row))"
    by auto
  from f have u: "utf8_size (or_else fmt (d_fmt row)) \<le> 4"
    by (auto simp: utf8_size_def code_point_def)
  from n have n': "utf8_size (safe_title (d_title row)) \<le> 300"
    by simp
  have w: "write_error s (export_path s row fmt t) = None"
    unfolding example_write_error [OF h f t n'] using u n by simp
  show ?thesis
    unfolding export_document_found [OF i r w] example_str_path [OF h ns t]
    by (simp add: Let_def)
qed

lemma engine_three_docs:
  "documents engine_three =
     [\<lparr>d_id = 1, d_template_id = 1, d_template_name = ''note'', d_title = ''A'',
        d_content = ''one'', d_variables_used = json_dumps_dict [(''x'', ''one'')],
        d_fmt = ''txt'', d_status = ''draft'', d_created_at = ''t1''\<rparr>,
      \<lparr>d_id = 2, d_template_id = 1, d_template_name = ''note'', d_title = ''A'',
        d_content = ''two'', d_variables_used = json_dumps_dict [(''x'', ''two'')],
        d_fmt = ''txt'', d_status = ''draft'', d_created_at = ''t2''\<rparr>]"
  by (simp add: engine_three_def run_def create_template_def select_template_def get_db_def
        Let_def render_def private_render_def re_sub_def replace_def strip_def is_space_def
        code_point_def)

lemma engine_three_rest:
  "home engine_three = ''/home/u''" "files engine_three = Map.empty"
  "export_records engine_three = []" "export_records_seq engine_three = 0"
  by (simp_all add: engine_three_def run_def create_template_def select_template_def get_db_def
        Let_def render_def private_render_def re_sub_def replace_def strip_def is_space_def
        code_point_def)

text \<open>
  Two exports from \<^verbatim>\<open>engine_three\<close>, of the first document with its stored format and
  then of the second with a given format, both among the three formats: the records
  and the files.
\<close>

lemma engine_three_exports:
  assumes t1: "t1 \<in> {''20260101_120000'', ''20260101_120001''}"
    and t2: "t2 \<in> {''20260101_120000'', ''20260101_120001''}"
    and f: "or_else fmt ''txt'' \<in> {''md'', ''txt'', ''html''}"
  shows "map e_export_path (exports_done engine_three [Export 1 None t1 ts1, Export 2 fmt t2 ts2])
           = [''/home/u/.blackroad/documents/A_'' @ t1 @ ''.txt'',
              ''/home/u/.blackroad/documents/A_'' @ t2 @ ''.'' @ or_else fmt ''txt'']"
    and "files (run engine_three [Export 1 None t1 ts1])
           = [''/home/u/.blackroad/documents/A_'' @ t1 @ ''.txt'' \<mapsto> ''one'']"
    and "files (run engine_three [Export 1 None t1 ts1, Export 2 fmt t2 ts2])
           = [''/home/u/.blackroad/documents/A_'' @ t1 @ ''.txt'' \<mapsto> ''one'',
              ''/home/u/.blackroad/documents/A_'' @ t2 @ ''.'' @ or_else fmt ''txt''
                \<mapsto> wrap_body (or_else fmt ''txt'') ''A'' ''two'']"
    and "file_keys engine_three [Export 1 None t1 ts1, Export 2 fmt t2 ts2]
           = [(''A'', t1, ''txt''), (''A'', t2, or_else fmt ''txt'')]"
    and "\<exists>rec. export_document engine_three 1 None t1 ts1
                  = (Inr rec, run engine_three [Export 1 None t1 ts1])
               \<and> e_export_path rec = ''/home/u/.blackroad/documents/A_'' @ t1 @ ''.txt''"
proof -
  let ?r1 = "\<lparr>d_id = 1, d_template_id = 1, d_template_name = ''note'', d_title = ''A'',
        d_content = ''one'', d_variables_used = json_dumps_dict [(''x'', ''one'')],
        d_fmt = ''txt'', d_status = ''draft'', d_created_at = ''t1''\<rparr>"
  let ?r2 = "\<lparr>d_id = 2, d_template_id = 1, d_template_name = ''note'', d_title = ''A'',
        d_content = ''two'', d_variables_used = json_dumps_dict [(''x'', ''two'')],
        d_fmt = ''txt'', d_status = ''draft'', d_created_at = ''t2''\<rparr>"
  have sel1: "select_document engine_three 1 = Some ?r1"
    by (simp add: select_document_def engine_three_docs)
  have e1: "export_document engine_three 1 None t1 ts1 =
     (Inr \<lparr>e_id = 1, e_document_id = 1,
            e_export_path = ''/home/u/.blackroad/documents/A_'' @ t1 @ ''.txt'',
            e_export_format = ''txt'', e_file_size_bytes = 3, e_exported_at = ts1\<rparr>,
      engine_three\<lparr>files := [''/home/u/.blackroad/documents/A_'' @ t1 @ ''.txt'' \<mapsto> ''one''],
        export_records := [\<lparr>e_id = 1, e_document_id = 1,
            e_export_path = ''/home/u/.blackroad/documents/A_'' @ t1 @ ''.txt'',
            e_export_format = ''txt'', e_file_size_bytes = 3, e_exported_at = ts1\<rparr>],
        export_records_seq := 1,
        documents := [?r1\<lparr>d_status := ''exported''\<rparr>, ?r2]\<rparr>)"
    using example_export [OF engine_three_rest(1) sqlite_integer_small(1) sel1 _ t1, of None ts1]
    by (simp add: Let_def or_else_def wrap_body_def safe_title_A engine_three_rest
          engine_three_docs utf8_size_def code_point_def)
  define s1 where "s1 = snd (export_document engine_three 1 None t1 ts1)"
  have s1: "home s1 = ''/home/u''" "select_document s1 2 = Some ?r2"
    "files s1 = [''/home/u/.blackroad/documents/A_'' @ t1 @ ''.txt'' \<mapsto> ''one'']"
    "export_records_seq s1 = 1"
    unfolding s1_def e1 by (simp_all add: engine_three_rest select_document_def)
  have f': "or_else fmt (d_fmt ?r2) \<in> {''md'', ''txt'', ''html''}"
    using f by simp
  have n2: "utf8_size (safe_title (d_title ?r2)) \<le> 200"
    by (simp add: safe_title_A utf8_size_slugs)
  note e2 = example_export [OF s1(1) sqlite_integer_small(2) s1(2) f' t2 n2, of ts2]
  have p1: "perform engine_three (Export 1 None t1 ts1) = s1"
    by (simp add: s1_def)
  have x1: "exported engine_three (Export 1 None t1 ts1) =
              [\<lparr>e_id = 1, e_document_id = 1,
            e_export_path = ''/home/u/.blackroad/documents/A_'' @ t1 @ ''.txt'',
            e_export_format = ''txt'', e_file_size_bytes = 3, e_exported_at = ts1\<rparr>]"
    by (simp add: e1)
  have k1: "exported_key engine_three (Export 1 None t1 ts1) = [(''A'', t1, ''txt'')]"
    by (simp add: e1 sel1 safe_title_A)
  have ns: "CHR ''/'' \<notin> set (or_else fmt ''txt'')"
    using f by auto
  then have tw: "takeWhile (\<lambda>c. c \<noteq> CHR ''/'') (or_else fmt ''txt'') = or_else fmt ''txt''"
    by (auto simp: takeWhile_eq_all_conv)
  show "map e_export_path (exports_done engine_three [Export 1 None t1 ts1, Export 2 fmt t2 ts2])
           = [''/home/u/.blackroad/documents/A_'' @ t1 @ ''.txt'',
              ''/home/u/.blackroad/documents/A_'' @ t2 @ ''.'' @ or_else fmt ''txt'']"
    unfolding exports_done.simps p1 x1 by (simp add: e2 Let_def safe_title_A)
  show "files (run engine_three [Export 1 None t1 ts1])
           = [''/home/u/.blackroad/documents/A_'' @ t1 @ ''.txt'' \<mapsto> ''one'']"
    unfolding run_Cons p1 by (simp add: run_def s1)
  show "files (run engine_three [Export 1 None t1 ts1, Export 2 fmt t2 ts2])
           = [''/home/u/.blackroad/documents/A_'' @ t1 @ ''.txt'' \<mapsto> ''one'',
              ''/home/u/.blackroad/documents/A_'' @ t2 @ ''.'' @ or_else fmt ''txt''
                \<mapsto> wrap_body (or_else fmt ''txt'') ''A'' ''two'']"
    unfolding run_Cons p1 by (simp add: run_def e2 Let_def s1 safe_title_A)
  show "file_keys engine_three [Export 1 None t1 ts1, Export 2 fmt t2 ts2]
           = [(''A'', t1, ''txt''), (''A'', t2, or_else fmt ''txt'')]"
    unfolding file_keys.simps p1 k1 by (simp add: e2 Let_def s1 safe_title_A tw)
  show "\<exists>rec. export_document engine_three 1 None t1 ts1
                  = (Inr rec, run engine_three [Export 1 None t1 ts1])
               \<and> e_export_path rec = ''/home/u/.blackroad/documents/A_'' @ t1 @ ''.txt''"
    unfolding run_Cons p1 by (simp add: run_def s1_def e1)
qed

text \<open>
  C8 as stated fails. The tag of a file name has the resolution of a second: two
  documents with the same title, exported with the same format within one second,
  get the same path, and the second export replaces the file of the first.
\<close>

theorem exports_in_one_second_overwrite:
  "map e_export_path
     (exports_done engine_three
        [Export 1 None ''20260101_120000'' ''t3'', Export 2 None ''20260101_120000'' ''t4''])
     = [''/home/u/.blackroad/documents/A_20260101_120000.txt'',
        ''/home/u/.blackroad/documents/A_20260101_120000.txt'']
   \<and> files (run engine_three [Export 1 None ''20260101_120000'' ''t3''])
        ''/home/u/.blackroad/documents/A_20260101_120000.txt'' = Some ''one''
   \<and> files (run engine_three
               [Export 1 None ''20260101_120000'' ''t3'', Export 2 None ''20260101_120000'' ''t4''])
        ''/home/u/.blackroad/documents/A_20260101_120000.txt'' = Some ''two''"
proof -
  have t: "''20260101_120000'' \<in> {''20260101_120000'', ''20260101_120001''}"
    by simp
  have f: "or_else None ''txt'' \<in> {''md'', ''txt'', ''html''}"
    by (simp add: or_else_def)
  note x = engine_three_exports [OF t t f]
  show ?thesis
    using x(1) [of "''t3''" "''t4''"] x(2) [of "''t3''"] x(3) [of "''t3''" "''t4''"]
    by (simp add: or_else_def wrap_body_def del: exports_done.simps)
qed

text \<open>
  C8, amended. In a sequence of calls whose exports read timestamp tags of the form
  \<^verbatim>\<open>%Y%m%d_%H%M%S\<close>, two export records have the same path exactly when their
  exports have the same slug, the same tag and the same format up to its first slash.
  When these triples are pairwise different, the paths of the records are pairwise
  different: each export that returns a record writes at a path different from the
  paths of all earlier records of the sequence, changes no file at another path, and
  its file is the same at the end of the sequence as it was when written.
\<close>

theorem exports_with_distinct_keys_keep_files:
  assumes "\<forall>t \<in> set (tags cs). ts_tag_format t"
  shows "length (file_keys s cs) = length (exports_done s cs)
         \<and> (\<forall>i j. i < length (exports_done s cs) \<and> j < length (exports_done s cs) \<longrightarrow>
               (e_export_path (exports_done s cs ! i) = e_export_path (exports_done s cs ! j)
                  \<longleftrightarrow> file_keys s cs ! i = file_keys s cs ! j))
         \<and> (distinct (file_keys s cs) \<longrightarrow>
               distinct (map e_export_path (exports_done s cs))
               \<and> (\<forall>before doc_id fmt ts_tag ts after rec s'.
                     cs = before @ Export doc_id fmt ts_tag ts # after
                     \<and> export_document (run s before) doc_id fmt ts_tag ts = (Inr rec, s') \<longrightarrow>
                       e_export_path rec \<notin> e_export_path ` set (exports_done s before)
                       \<and> (\<forall>p. p \<noteq> e_export_path rec \<longrightarrow> files s' p = files (run s before) p)
                       \<and> files s' (e_export_path rec) \<noteq> None
                       \<and> files (run s cs) (e_export_path rec) = files s' (e_export_path rec)))"
proof -
  note kp = file_keys_paths [OF assms, of s]
  note paths = kp [THEN conjunct1]
  have inj: "inj_on (key_path (home s)) (set (file_keys s cs))"
    by (rule key_path_inj_on [OF kp [THEN conjunct2]])
  have len: "length (file_keys s cs) = length (exports_done s cs)"
    using arg_cong [OF paths, of length] by simp
  have same: "\<forall>i j. i < length (exports_done s cs) \<and> j < length (exports_done s cs) \<longrightarrow>
               (e_export_path (exports_done s cs ! i) = e_export_path (exports_done s cs ! j)
                  \<longleftrightarrow> file_keys s cs ! i = file_keys s cs ! j)"
  proof (intro allI impI, elim conjE)
    fix i j
    assume i: "i < length (exports_done s cs)" and j: "j < length (exports_done s cs)"
    from i j len have ik: "i < length (file_keys s cs)" and jk: "j < length (file_keys s cs)"
      by simp_all
    have pi: "e_export_path (exports_done s cs ! i) = key_path (home s) (file_keys s cs ! i)"
      using arg_cong [OF paths, of "\<lambda>xs. xs ! i"] i ik by simp
    have pj: "e_export_path (exports_done s cs ! j) = key_path (home s) (file_keys s cs ! j)"
      using arg_cong [OF paths, of "\<lambda>xs. xs ! j"] j jk by simp
    from ik have mi: "file_keys s cs ! i \<in> set (file_keys s cs)"
      by (rule nth_mem)
    from jk have mj: "file_keys s cs ! j \<in> set (file_keys s cs)"
      by (rule nth_mem)
    show "e_export_path (exports_done s cs ! i) = e_export_path (exports_done s cs ! j)
            \<longleftrightarrow> file_keys s cs ! i = file_keys s cs ! j"
      unfolding pi pj by (rule inj_on_eq_iff [OF inj mi mj])
  qed
  have keep: "distinct (file_keys s cs) \<longrightarrow>
               distinct (map e_export_path (exports_done s cs))
               \<and> (\<forall>before doc_id fmt ts_tag ts after rec s'.
                     cs = before @ Export doc_id fmt ts_tag ts # after
                     \<and> export_document (run s before) doc_id fmt ts_tag ts = (Inr rec, s') \<longrightarrow>
                       e_export_path rec \<notin> e_export_path ` set (exports_done s before)
                       \<and> (\<forall>p. p \<noteq> e_export_path rec \<longrightarrow> files s' p = files (run s before) p)
                       \<and> files s' (e_export_path rec) \<noteq> None
                       \<and> files (run s cs) (e_export_path rec) = files s' (e_export_path rec))"
  proof
    assume dk: "distinct (file_keys s cs)"
    have dist: "distinct (map e_export_path (exports_done s cs))"
      unfolding paths distinct_map using dk inj by simp
    have each: "\<forall>before doc_id fmt ts_tag ts after rec s'.
               cs = before @ Export doc_id fmt ts_tag ts # after
               \<and> export_document (run s before) doc_id fmt ts_tag ts = (Inr rec, s') \<longrightarrow>
                 e_export_path rec \<notin> e_export_path ` set (exports_done s before)
                 \<and> (\<forall>p. p \<noteq> e_export_path rec \<longrightarrow> files s' p = files (run s before) p)
                 \<and> files s' (e_export_path rec) \<noteq> None
                 \<and> files (run s cs) (e_export_path rec) = files s' (e_export_path rec)"
    proof (intro allI impI, elim conjE)
      fix before doc_id fmt ts_tag ts after rec s'
      assume cs: "cs = before @ Export doc_id fmt ts_tag ts # after"
        and ex: "export_document (run s before) doc_id fmt ts_tag ts = (Inr rec, s')"
      let ?mid = "run s before"
      from ex have one: "exported ?mid (Export doc_id fmt ts_tag ts) = [rec]"
        and nxt: "perform ?mid (Export doc_id fmt ts_tag ts) = s'"
        by simp_all
      have alld: "exports_done s cs =
                    exports_done s before @ [rec] @ exports_done s' after"
        unfolding cs exports_done_append exports_done.simps one nxt by simp
      have rn: "run s cs = run s' after"
        unfolding cs run_append run_Cons nxt by simp
      from dist have d: "distinct (map e_export_path (exports_done s before)
                           @ [e_export_path rec] @ map e_export_path (exports_done s' after))"
        unfolding alld by simp
      from d have a: "e_export_path rec \<notin> e_export_path ` set (exports_done s before)"
        by auto
      from d have later: "e_export_path rec \<notin> e_export_path ` set (exports_done s' after)"
        by auto
      from export_document_Inr [OF ex] obtain row where
        i: "sqlite_integer doc_id" and row: "select_document ?mid doc_id = Some row"
        and w: "write_error ?mid (export_path ?mid row fmt ts_tag) = None"
        by blast
      note found = ex [unfolded export_document_found [OF i row w] Let_def]
      from found have b: "\<forall>p. p \<noteq> e_export_path rec \<longrightarrow> files s' p = files ?mid p"
        by auto
      from found have c: "files s' (e_export_path rec) \<noteq> None"
        by auto
      have e: "files (run s cs) (e_export_path rec) = files s' (e_export_path rec)"
        unfolding rn by (rule files_run [OF later])
      show "e_export_path rec \<notin> e_export_path ` set (exports_done s before)
            \<and> (\<forall>p. p \<noteq> e_export_path rec \<longrightarrow> files s' p = files ?mid p)
            \<and> files s' (e_export_path rec) \<noteq> None
            \<and> files (run s cs) (e_export_path rec) = files s' (e_export_path rec)"
        by (intro conjI a b c e)
    qed
    show "distinct (map e_export_path (exports_done s cs))
               \<and> (\<forall>before doc_id fmt ts_tag ts after rec s'.
                     cs = before @ Export doc_id fmt ts_tag ts # after
                     \<and> export_document (run s before) doc_id fmt ts_tag ts = (Inr rec, s') \<longrightarrow>
                       e_export_path rec \<notin> e_export_path ` set (exports_done s before)
                       \<and> (\<forall>p. p \<noteq> e_export_path rec \<longrightarrow> files s' p = files (run s before) p)
                       \<and> files s' (e_export_path rec) \<noteq> None
                       \<and> files (run s cs) (e_export_path rec) = files s' (e_export_path rec))"
      by (intro conjI dist each)
  qed
  show ?thesis
    by (intro conjI len same keep)
qed

theorem exports_with_distinct_keys_keep_files_witness:
  "ts_tag_format ''20260101_120000''
   \<and> file_keys engine_three
        [Export 1 None ''20260101_120000'' ''t3'', Export 2 (Some ''md'') ''20260101_120000'' ''t4'']
       = [(''A'', ''20260101_120000'', ''txt''), (''A'', ''20260101_120000'', ''md'')]
   \<and> map e_export_path
        (exports_done engine_three
           [Export 1 None ''20260101_120000'' ''t3'', Export 2 (Some ''md'') ''20260101_120000'' ''t4''])
       = [''/home/u/.blackroad/documents/A_20260101_120000.txt'',
          ''/home/u/.blackroad/documents/A_20260101_120000.md'']
   \<and> distinct (map e_export_path
        (exports_done engine_three
           [Export 1 None ''20260101_120000'' ''t3'', Export 2 (Some ''md'') ''20260101_120000'' ''t4'']))
   \<and> files (run engine_three [Export 1 None ''20260101_120000'' ''t3''])
        ''/home/u/.blackroad/documents/A_20260101_120000.txt'' = Some ''one''
   \<and> files (run engine_three
               [Export 1 None ''20260101_120000'' ''t3'', Export 2 (Some ''md'') ''20260101_120000'' ''t4''])
        ''/home/u/.blackroad/documents/A_20260101_120000.txt'' = Some ''one''
   \<and> file_keys engine_three
        [Export 1 None ''20260101_120000'' ''t3'', Export 2 None ''20260101_120000'' ''t4'']
       = [(''A'', ''20260101_120000'', ''txt''), (''A'', ''20260101_120000'', ''txt'')]
   \<and> e_export_path (exports_done engine_three
        [Export 1 None ''20260101_120000'' ''t3'', Export 2 None ''20260101_120000'' ''t4''] ! 0)
       = e_export_path (exports_done engine_three
        [Export 1 None ''20260101_120000'' ''t3'', Export 2 None ''20260101_120000'' ''t4''] ! 1)"
proof -
  let ?e1 = "Export 1 None ''20260101_120000'' ''t3''"
  let ?e2 = "Export 2 (Some ''md'') ''20260101_120000'' ''t4''"
  let ?e3 = "Export 2 None ''20260101_120000'' ''t4''"
  let ?cs = "[?e1, ?e2]"
  let ?ds = "[?e1, ?e3]"
  let ?p = "''/home/u/.blackroad/documents/A_20260101_120000.txt''"
  have f1: "ts_tag_format ''20260101_120000''"
    by (simp add: ts_tag_format_def is_digit_def)
  have h1: "\<forall>t \<in> set (tags ?cs). ts_tag_format t"
    using f1 by simp
  have h2: "\<forall>t \<in> set (tags ?ds). ts_tag_format t"
    using f1 by simp
  note t = exports_with_distinct_keys_keep_files [OF h1, of engine_three]
  note u = exports_with_distinct_keys_keep_files [OF h2, of engine_three]
  have tg: "''20260101_120000'' \<in> {''20260101_120000'', ''20260101_120001''}"
    by simp
  have fm: "or_else (Some ''md'') ''txt'' \<in> {''md'', ''txt'', ''html''}"
    by (simp add: or_else_def)
  have fn: "or_else None ''txt'' \<in> {''md'', ''txt'', ''html''}"
    by (simp add: or_else_def)
  note x = engine_three_exports [OF tg tg fm]
  note y = engine_three_exports [OF tg tg fn]
  have keys: "file_keys engine_three ?cs
       = [(''A'', ''20260101_120000'', ''txt''), (''A'', ''20260101_120000'', ''md'')]"
    using x(4) [of "''t3''" "''t4''"] by (simp add: or_else_def del: file_keys.simps)
  have paths: "map e_export_path (exports_done engine_three ?cs)
       = [?p, ''/home/u/.blackroad/documents/A_20260101_120000.md'']"
    using x(1) [of "''t3''" "''t4''"] by (simp add: or_else_def del: exports_done.simps)
  have dk: "distinct (file_keys engine_three ?cs)"
    unfolding keys by simp
  note k = t [THEN conjunct2, THEN conjunct2, THEN mp, OF dk]
  have g1: "files (run engine_three [?e1]) ?p = Some ''one''"
    using x(2) [of "''t3''"] by simp
  have rn: "run engine_three [] = engine_three"
    by (simp add: run_def)
  from x(5) [of "''t3''"] obtain rec where
    ex0: "export_document engine_three 1 None ''20260101_120000'' ''t3''
            = (Inr rec, run engine_three [?e1])"
    and pr': "e_export_path rec = ?p"
    by auto
  from ex0 have ex: "export_document (run engine_three []) 1 None ''20260101_120000'' ''t3''
                       = (Inr rec, run engine_three [?e1])"
    unfolding rn .
  have sp: "?cs = [] @ ?e1 # [?e2]"
    by simp
  note m = k [THEN conjunct2, THEN spec, THEN spec, THEN spec, THEN spec, THEN spec, THEN spec,
              THEN spec, THEN spec, THEN mp, OF conjI, OF sp ex]
  note keep = m [THEN conjunct2, THEN conjunct2, THEN conjunct2]
  have g2: "files (run engine_three ?cs) ?p = Some ''one''"
    using keep g1 unfolding pr' by simp
  have keys2: "file_keys engine_three ?ds
       = [(''A'', ''20260101_120000'', ''txt''), (''A'', ''20260101_120000'', ''txt'')]"
    using y(4) [of "''t3''" "''t4''"] by (simp add: or_else_def del: file_keys.simps)
  have len2: "length (exports_done engine_three ?ds) = 2"
    using u [THEN conjunct1] unfolding keys2 by simp
  have lt: "0 < length (exports_done engine_three ?ds) \<and> 1 < length (exports_done engine_three ?ds)"
    unfolding len2 by simp
  note u [THEN conjunct2, THEN conjunct1, THEN spec, THEN spec, THEN mp, OF lt]
  then have same: "e_export_path (exports_done engine_three ?ds ! 0)
                     = e_export_path (exports_done engine_three ?ds ! 1)"
    unfolding keys2 by simp
  show ?thesis
    by (intro conjI f1 keys paths k [THEN conjunct1] g1 g2 keys2 same)
qed

end
